theory Spec2Isabelle
  imports Main "HOL-Library.Sublist" "HOL-Library.AList" "HOL-Library.Word"
begin

section \<open>Paths\<close>

text \<open>
  A \<^verbatim>\<open>pathlib.Path\<close> is its root (empty for a relative path, one slash, or two slashes
  when the text starts with exactly two) and the list of its components after the root.
  \<^verbatim>\<open>Path(s)\<close> splits the text at slashes and drops empty and \<^verbatim>\<open>.\<close> components;
  \<^verbatim>\<open>str(p)\<close> joins the components again. Two paths are equal when root and components are.
\<close>

datatype path = Path (root: string) (parts: "string list")

definition is_absolute :: "path \<Rightarrow> bool" where
  "is_absolute p = (root p \<noteq> [])"

fun split_slash :: "string \<Rightarrow> string list" where
  "split_slash [] = [[]]"
| "split_slash (c # cs) =
     (if c = CHR ''/'' then [] # split_slash cs
      else (case split_slash cs of [] \<Rightarrow> [[c]] | w # ws \<Rightarrow> (c # w) # ws))"

definition root_of_str :: "string \<Rightarrow> string" where
  "root_of_str s =
     (if take 2 s = ''//'' \<and> take 3 s \<noteq> ''///'' then ''//''
      else if take 1 s = ''/'' then ''/''
      else [])"

definition path_of_str :: "string \<Rightarrow> path" where
  "path_of_str s =
     Path (root_of_str s) (filter (\<lambda>c. c \<noteq> [] \<and> c \<noteq> ''.'') (split_slash s))"

fun join_slash :: "string list \<Rightarrow> string" where
  "join_slash [] = []"
| "join_slash [c] = c"
| "join_slash (c # d # cs) = c @ ''/'' @ join_slash (d # cs)"

definition str_of_path :: "path \<Rightarrow> string" where
  "str_of_path p =
     (if is_absolute p then root p @ join_slash (parts p)
      else if parts p = [] then ''.'' else join_slash (parts p))"

section \<open>Documents and exceptions\<close>

text \<open>
  What \<^verbatim>\<open>yaml.safe_load\<close> returns: null, a string scalar, a sequence or a mapping with
  string keys, in document order (numbers and booleans are left out of the model).
  The file behind a manifest is absent, is text the parser rejects, or parses to a value.
\<close>

datatype yaml = YNull | YStr string | YList "yaml list" | YMap "(string \<times> yaml) list"

datatype document = Absent | Malformed | Parsed yaml

datatype error =
    YAMLError | KeyError | TypeError | AttributeError | ValueError
  | FileNotFoundError | FileExistsError | NotADirectoryError | IsADirectoryError
  | OSError | SameFileError | ShutilError | RuntimeError

text \<open>
  The exceptions a clause \<^verbatim>\<open>except OSError\<close> catches: the operating system's errors and
  those of \<^verbatim>\<open>shutil\<close>, not \<^verbatim>\<open>RuntimeError\<close>.
\<close>

fun is_OSError :: "error \<Rightarrow> bool" where
  "is_OSError FileNotFoundError = True"
| "is_OSError FileExistsError = True"
| "is_OSError NotADirectoryError = True"
| "is_OSError IsADirectoryError = True"
| "is_OSError OSError = True"
| "is_OSError SameFileError = True"
| "is_OSError ShutilError = True"
| "is_OSError _ = False"

text \<open>Python truth value of a loaded value: null and empty containers are false.\<close>

fun truthy :: "yaml \<Rightarrow> bool" where
  "truthy YNull = False"
| "truthy (YStr s) = (s \<noteq> [])"
| "truthy (YList xs) = (xs \<noteq> [])"
| "truthy (YMap m) = (m \<noteq> [])"

section \<open>The manifest (files/manifest.py)\<close>

text \<open>
  The dataclass \<^verbatim>\<open>FileEntry\<close>. The fields \<^verbatim>\<open>type\<close> and \<^verbatim>\<open>platform\<close> hold whatever
  the document or the caller gave (Python does not enforce the annotations), so they are
  loaded values: \<^verbatim>\<open>None\<close> is \<open>YNull\<close>.
\<close>

record file_entry =
  source :: path
  dest :: path
  etype :: yaml
  platform :: yaml

record manifest =
  entries :: "file_entry list"
  mpath :: path

subsection \<open>load\<close>

text \<open>\<^verbatim>\<open>"entries" in data\<close>: key membership, element membership or substring test.\<close>

fun contains_str :: "string \<Rightarrow> string \<Rightarrow> bool" where
  "contains_str p [] = (p = [])"
| "contains_str p (c # cs) = (prefix p (c # cs) \<or> contains_str p cs)"

fun has_key :: "string \<Rightarrow> yaml \<Rightarrow> error + bool" where
  "has_key k (YMap m) = Inr (map_of m k \<noteq> None)"
| "has_key k (YList xs) = Inr (YStr k \<in> set xs)"
| "has_key k (YStr s) = Inr (contains_str k s)"
| "has_key k YNull = Inl TypeError"

text \<open>\<^verbatim>\<open>d[k]\<close> with a string key.\<close>

fun subscript :: "yaml \<Rightarrow> string \<Rightarrow> error + yaml" where
  "subscript (YMap m) k = (case map_of m k of None \<Rightarrow> Inl KeyError | Some v \<Rightarrow> Inr v)"
| "subscript _ k = Inl TypeError"

text \<open>\<^verbatim>\<open>d.get(k, default)\<close>: only a mapping has the method.\<close>

fun get_default :: "yaml \<Rightarrow> string \<Rightarrow> yaml \<Rightarrow> error + yaml" where
  "get_default (YMap m) k d = (case map_of m k of None \<Rightarrow> Inr d | Some v \<Rightarrow> Inr v)"
| "get_default _ k d = Inl AttributeError"

text \<open>\<^verbatim>\<open>for item in v\<close>: the elements, the keys of a mapping, the characters of a string.\<close>

fun iterate :: "yaml \<Rightarrow> error + yaml list" where
  "iterate (YList xs) = Inr xs"
| "iterate (YMap m) = Inr (map (\<lambda>(k, v). YStr k) m)"
| "iterate (YStr s) = Inr (map (\<lambda>c. YStr [c]) s)"
| "iterate YNull = Inl TypeError"

text \<open>\<^verbatim>\<open>d.items()\<close>.\<close>

fun items :: "yaml \<Rightarrow> error + (string \<times> yaml) list" where
  "items (YMap m) = Inr m"
| "items _ = Inl AttributeError"

text \<open>\<^verbatim>\<open>Path(v)\<close> accepts a string only.\<close>

fun Path_of :: "yaml \<Rightarrow> error + path" where
  "Path_of (YStr s) = Inr (path_of_str s)"
| "Path_of _ = Inl TypeError"

text \<open>One item of the \<^verbatim>\<open>entries\<close> list, fields evaluated in the order of the source.\<close>

definition load_item :: "yaml \<Rightarrow> error + file_entry" where
  "load_item item =
     (case subscript item ''source'' of Inl e \<Rightarrow> Inl e | Inr sv \<Rightarrow>
      case Path_of sv of Inl e \<Rightarrow> Inl e | Inr s \<Rightarrow>
      case subscript item ''dest'' of Inl e \<Rightarrow> Inl e | Inr dv \<Rightarrow>
      case Path_of dv of Inl e \<Rightarrow> Inl e | Inr d \<Rightarrow>
      case get_default item ''type'' (YStr ''symlink'') of Inl e \<Rightarrow> Inl e | Inr t \<Rightarrow>
      case get_default item ''platform'' YNull of Inl e \<Rightarrow> Inl e | Inr p \<Rightarrow>
      Inr \<lparr>source = s, dest = d, etype = t, platform = p\<rparr>)"

fun load_items :: "yaml list \<Rightarrow> error + file_entry list" where
  "load_items [] = Inr []"
| "load_items (item # rest) =
     (case load_item item of Inl e \<Rightarrow> Inl e | Inr en \<Rightarrow>
      case load_items rest of Inl e \<Rightarrow> Inl e | Inr es \<Rightarrow> Inr (en # es))"

text \<open>A legacy mapping source \<open>\<rightarrow>\<close> dest, every pair becoming an entry of the given kind.\<close>

fun load_pairs :: "string \<Rightarrow> yaml \<Rightarrow> (string \<times> yaml) list \<Rightarrow> error + file_entry list" where
  "load_pairs t p [] = Inr []"
| "load_pairs t p ((src, dv) # rest) =
     (case Path_of dv of Inl e \<Rightarrow> Inl e | Inr d \<Rightarrow>
      case load_pairs t p rest of Inl e \<Rightarrow> Inl e | Inr es \<Rightarrow>
      Inr (\<lparr>source = path_of_str src, dest = d, etype = YStr t, platform = p\<rparr> # es))"

definition load_section :: "yaml \<Rightarrow> string \<Rightarrow> string \<Rightarrow> yaml \<Rightarrow> error + file_entry list" where
  "load_section data key t p =
     (case get_default data key (YMap []) of Inl e \<Rightarrow> Inl e | Inr v \<Rightarrow>
      case items v of Inl e \<Rightarrow> Inl e | Inr kvs \<Rightarrow> load_pairs t p kvs)"

fun load_platforms :: "(string \<times> yaml) list \<Rightarrow> error + file_entry list" where
  "load_platforms [] = Inr []"
| "load_platforms ((plat, sections) # rest) =
     (case load_section sections ''symlinks'' ''symlink'' (YStr plat) of Inl e \<Rightarrow> Inl e | Inr a \<Rightarrow>
      case load_section sections ''copies'' ''copy'' (YStr plat) of Inl e \<Rightarrow> Inl e | Inr b \<Rightarrow>
      case load_platforms rest of Inl e \<Rightarrow> Inl e | Inr es \<Rightarrow> Inr (a @ b @ es))"

definition load_entries :: "yaml \<Rightarrow> error + file_entry list" where
  "load_entries data =
     (case has_key ''entries'' data of Inl e \<Rightarrow> Inl e
      | Inr True \<Rightarrow>
          (case subscript data ''entries'' of Inl e \<Rightarrow> Inl e | Inr v \<Rightarrow>
           case iterate v of Inl e \<Rightarrow> Inl e | Inr its \<Rightarrow> load_items its)
      | Inr False \<Rightarrow>
          (case load_section data ''symlinks'' ''symlink'' YNull of Inl e \<Rightarrow> Inl e | Inr a \<Rightarrow>
           case load_section data ''copies'' ''copy'' YNull of Inl e \<Rightarrow> Inl e | Inr b \<Rightarrow>
           case get_default data ''platform'' (YMap []) of Inl e \<Rightarrow> Inl e | Inr pv \<Rightarrow>
           case items pv of Inl e \<Rightarrow> Inl e | Inr ps \<Rightarrow>
           case load_platforms ps of Inl e \<Rightarrow> Inl e | Inr c \<Rightarrow> Inr (a @ b @ c)))"

text \<open>
  \<^verbatim>\<open>Manifest.load\<close>: an absent file gives the empty manifest; otherwise the text is parsed
  (\<^verbatim>\<open>yaml.safe_load(f) or {}\<close>) and read. No exception is caught.
\<close>

definition manifest_load :: "path \<Rightarrow> document \<Rightarrow> error + manifest" where
  "manifest_load p doc =
     (case doc of
        Absent \<Rightarrow> Inr \<lparr>entries = [], mpath = p\<rparr>
      | Malformed \<Rightarrow> Inl YAMLError
      | Parsed y \<Rightarrow>
          (case load_entries (if truthy y then y else YMap []) of
             Inl e \<Rightarrow> Inl e
           | Inr es \<Rightarrow> Inr \<lparr>entries = es, mpath = p\<rparr>))"

subsection \<open>save\<close>

text \<open>
  The dictionary \<^verbatim>\<open>data\<close> that \<^verbatim>\<open>save\<close> builds. Assigning to a key keeps the position of a
  key that is present and appends a new one (\<open>AList.update\<close>).
\<close>

fun ylookup :: "yaml \<Rightarrow> string \<Rightarrow> yaml option" where
  "ylookup (YMap m) k = map_of m k"
| "ylookup _ k = None"

fun yput :: "string \<Rightarrow> yaml \<Rightarrow> yaml \<Rightarrow> yaml" where
  "yput k v (YMap m) = YMap (AList.update k v m)"
| "yput k v y = y"

text \<open>\<^verbatim>\<open>if k not in d: d[k] = {}\<close>, and \<^verbatim>\<open>d[k]\<close> afterwards.\<close>

definition setdefault :: "string \<Rightarrow> yaml \<Rightarrow> yaml" where
  "setdefault k d = (if ylookup d k = None then yput k (YMap []) d else d)"

definition sub :: "yaml \<Rightarrow> string \<Rightarrow> yaml" where
  "sub d k = (case ylookup d k of Some v \<Rightarrow> v | None \<Rightarrow> YMap [])"

definition section_of :: "file_entry \<Rightarrow> string" where
  "section_of e = (if etype e = YStr ''symlink'' then ''symlinks'' else ''copies'')"

text \<open>
  The body of the loop over the entries. A platform that is true but not a string is a list
  or a mapping, which cannot be a dictionary key (\<^verbatim>\<open>TypeError\<close>).
\<close>

definition save_entry :: "file_entry \<Rightarrow> yaml \<Rightarrow> error + yaml" where
  "save_entry e data =
     (let section = section_of e;
          src = str_of_path (source e);
          dst = YStr (str_of_path (dest e))
      in if truthy (platform e) then
           (case platform e of
              YStr plat \<Rightarrow>
                (let data1 = setdefault ''platform'' data;
                     pl1 = setdefault plat (sub data1 ''platform'');
                     se1 = setdefault section (sub pl1 plat);
                     mp = yput src dst (sub se1 section)
                 in Inr (yput ''platform'' (yput plat (yput section mp se1) pl1) data1))
            | _ \<Rightarrow> Inl TypeError)
         else
           (let data1 = setdefault section data
            in Inr (yput section (yput src dst (sub data1 section)) data1)))"

fun save_entries :: "file_entry list \<Rightarrow> yaml \<Rightarrow> error + yaml" where
  "save_entries [] data = Inr data"
| "save_entries (e # es) data =
     (case save_entry e data of Inl x \<Rightarrow> Inl x | Inr data' \<Rightarrow> save_entries es data')"

text \<open>Deleting the keys whose value is false (\<^verbatim>\<open>if not d[k]: del d[k]\<close>).\<close>

fun clean :: "yaml \<Rightarrow> yaml" where
  "clean (YMap m) = YMap (filter (\<lambda>(k, v). truthy v) m)"
| "clean y = y"

fun clean_platforms :: "yaml \<Rightarrow> yaml" where
  "clean_platforms (YMap m) =
     YMap (filter (\<lambda>(k, v). truthy v) (map (\<lambda>(k, v). (k, clean v)) m))"
| "clean_platforms y = y"

definition clean_data :: "yaml \<Rightarrow> yaml" where
  "clean_data data =
     (let d1 = clean data
      in case ylookup d1 ''platform'' of
           None \<Rightarrow> d1
         | Some pv \<Rightarrow>
             (let pv' = clean_platforms pv
              in if truthy pv' then yput ''platform'' pv' d1
                 else (case d1 of YMap m \<Rightarrow> YMap (AList.delete ''platform'' m) | y \<Rightarrow> y)))"

definition save_data :: "file_entry list \<Rightarrow> error + yaml" where
  "save_data es =
     (case save_entries es (YMap [(''symlinks'', YMap [])]) of
        Inl x \<Rightarrow> Inl x
      | Inr data \<Rightarrow> Inr (clean_data data))"

text \<open>
  \<^verbatim>\<open>Manifest.save\<close> replaces the document on disk by the dumped dictionary; an exception
  raised while the dictionary is built leaves the document as it was. The manifest file
  is kept apart from the filesystem of the reconcilers, and a failure to create its
  directory or to open it is not modelled.
\<close>

definition manifest_save :: "manifest \<Rightarrow> document \<Rightarrow> (error + unit) \<times> document" where
  "manifest_save m disk =
     (case save_data (entries m) of
        Inl x \<Rightarrow> (Inl x, disk)
      | Inr data \<Rightarrow> (Inr (), Parsed data))"

subsection \<open>add, remove, find_by_dest, for_platform\<close>

text \<open>The loop of \<^verbatim>\<open>add\<close>: the first entry with the given dest is overwritten in place.\<close>

fun update_existing ::
  "path \<Rightarrow> path \<Rightarrow> yaml \<Rightarrow> yaml \<Rightarrow> file_entry list \<Rightarrow> file_entry list option" where
  "update_existing s d t p [] = None"
| "update_existing s d t p (e # es) =
     (if dest e = d then Some (e\<lparr>source := s, etype := t, platform := p\<rparr> # es)
      else map_option ((#) e) (update_existing s d t p es))"

definition manifest_add ::
  "path \<Rightarrow> path \<Rightarrow> yaml \<Rightarrow> yaml \<Rightarrow> manifest \<Rightarrow> document
     \<Rightarrow> (error + unit) \<times> manifest \<times> document" where
  "manifest_add s d t p m disk =
     (let es = (case update_existing s d t p (entries m) of
                  Some es' \<Rightarrow> es'
                | None \<Rightarrow> entries m @ [\<lparr>source = s, dest = d, etype = t, platform = p\<rparr>]);
          m' = m\<lparr>entries := es\<rparr>
      in case manifest_save m' disk of (r, disk') \<Rightarrow> (r, m', disk'))"

text \<open>The loop of \<^verbatim>\<open>remove\<close>: the first entry with the given dest is popped.\<close>

fun pop_first :: "path \<Rightarrow> file_entry list \<Rightarrow> file_entry list option" where
  "pop_first d [] = None"
| "pop_first d (e # es) =
     (if dest e = d then Some es else map_option ((#) e) (pop_first d es))"

definition manifest_remove ::
  "path \<Rightarrow> manifest \<Rightarrow> document \<Rightarrow> (error + bool) \<times> manifest \<times> document" where
  "manifest_remove d m disk =
     (case pop_first d (entries m) of
        None \<Rightarrow> (Inr False, m, disk)
      | Some es \<Rightarrow>
          (let m' = m\<lparr>entries := es\<rparr>
           in case manifest_save m' disk of
                (Inl x, disk') \<Rightarrow> (Inl x, m', disk')
              | (Inr u, disk') \<Rightarrow> (Inr True, m', disk')))"

definition find_by_dest :: "manifest \<Rightarrow> path \<Rightarrow> file_entry option" where
  "find_by_dest m d = find (\<lambda>e. dest e = d) (entries m)"

definition for_platform :: "manifest \<Rightarrow> string \<Rightarrow> file_entry list" where
  "for_platform m plat =
     filter (\<lambda>e. platform e = YNull \<or> platform e = YStr plat) (entries m)"

section \<open>The filesystem\<close>

text \<open>
  The files the reconcilers work on. A location is an absolute path, the list of its
  components from the root; what is stored there is a regular file with its bytes, a
  directory, or a symbolic link with its (absolute) target. The store is a finite table
  from locations to nodes, with the modes set by \<^verbatim>\<open>chmod\<close> beside it. Locations are looked
  up as written: a link is followed when it is the last component of a path, and the
  children of a directory are the locations one component longer. A path that runs through
  a directory which is itself a link is not resolved through that link: the model covers
  the filesystems in which the directories above a path are directories proper.
\<close>

type_synonym fpath = "string list"

type_synonym bytes = "8 word list"

datatype node = File bytes | Dir | Link fpath

record fs =
  nodes :: "(fpath \<times> node) list"
  perm :: "(fpath \<times> nat) list"

text \<open>\<^verbatim>\<open>base / p\<close>, \<^verbatim>\<open>p.parent\<close> and \<^verbatim>\<open>p.name\<close> (empty for the root).\<close>

definition join :: "fpath \<Rightarrow> path \<Rightarrow> fpath" where
  "join base p = (if is_absolute p then parts p else base @ parts p)"

definition parent :: "fpath \<Rightarrow> fpath" where
  "parent p = butlast p"

definition name :: "fpath \<Rightarrow> string" where
  "name p = (if p = [] then [] else last p)"

subsection \<open>Queries\<close>

text \<open>\<^verbatim>\<open>os.lstat\<close>: the node at a location, the root being a directory.\<close>

definition lstat :: "fs \<Rightarrow> fpath \<Rightarrow> node option" where
  "lstat s p = (if p = [] then Some Dir else map_of (nodes s) p)"

text \<open>
  \<^verbatim>\<open>os.stat\<close> follows links, at most \<open>max_links\<close> nodes long, to the location and node a
  path stands for; a missing node on the way or too long a chain is an error (\<open>None\<close>).
\<close>

fun follow :: "nat \<Rightarrow> fs \<Rightarrow> fpath \<Rightarrow> (fpath \<times> node) option" where
  "follow 0 s p = None"
| "follow (Suc n) s p =
     (case lstat s p of
        None \<Rightarrow> None
      | Some (Link t) \<Rightarrow> follow n s t
      | Some nd \<Rightarrow> Some (p, nd))"

definition max_links :: nat where
  "max_links = 40"

definition stat :: "fs \<Rightarrow> fpath \<Rightarrow> (fpath \<times> node) option" where
  "stat s p = follow max_links s p"

definition exists :: "fs \<Rightarrow> fpath \<Rightarrow> bool" where
  "exists s p = (stat s p \<noteq> None)"

definition is_dir :: "fs \<Rightarrow> fpath \<Rightarrow> bool" where
  "is_dir s p = (case stat s p of Some (q, Dir) \<Rightarrow> True | _ \<Rightarrow> False)"

definition is_file :: "fs \<Rightarrow> fpath \<Rightarrow> bool" where
  "is_file s p = (case stat s p of Some (q, File b) \<Rightarrow> True | _ \<Rightarrow> False)"

definition is_symlink :: "fs \<Rightarrow> fpath \<Rightarrow> bool" where
  "is_symlink s p = (case lstat s p of Some (Link t) \<Rightarrow> True | _ \<Rightarrow> False)"

text \<open>
  \<^verbatim>\<open>Path.resolve()\<close> is called with its default \<^verbatim>\<open>strict=False\<close>: the links are followed
  as far as they lead and the location reached is returned, whether or not anything is
  there. It raises no \<^verbatim>\<open>OSError\<close>. Only a chain of links that comes back to itself makes
  it raise, a \<^verbatim>\<open>RuntimeError\<close> (as Python does before 3.13); a chain that has not ended
  after more links than the table has nodes has come back to itself.
\<close>

fun res :: "nat \<Rightarrow> fs \<Rightarrow> fpath \<Rightarrow> fpath option" where
  "res 0 s p = None"
| "res (Suc n) s p = (case lstat s p of Some (Link t) \<Rightarrow> res n s t | _ \<Rightarrow> Some p)"

definition resolve :: "fs \<Rightarrow> fpath \<Rightarrow> error + fpath" where
  "resolve s p =
     (case res (max_links + length (nodes s)) s p of
        None \<Rightarrow> Inl RuntimeError
      | Some q \<Rightarrow> Inr q)"

definition read_bytes :: "fs \<Rightarrow> fpath \<Rightarrow> error + bytes" where
  "read_bytes s p =
     (case stat s p of
        None \<Rightarrow> Inl FileNotFoundError
      | Some (q, File b) \<Rightarrow> Inr b
      | Some (q, Dir) \<Rightarrow> Inl IsADirectoryError
      | Some (q, Link t) \<Rightarrow> Inl OSError)"

text \<open>\<^verbatim>\<open>filecmp.cmp(a, b, shallow=False)\<close>: two regular files with the same bytes.\<close>

definition filecmp :: "fs \<Rightarrow> fpath \<Rightarrow> fpath \<Rightarrow> error + bool" where
  "filecmp s a b =
     (case stat s a of
        None \<Rightarrow> Inl FileNotFoundError
      | Some (qa, na) \<Rightarrow>
          (case stat s b of
             None \<Rightarrow> Inl FileNotFoundError
           | Some (qb, nb) \<Rightarrow>
               (case (na, nb) of
                  (File x, File y) \<Rightarrow> Inr (x = y)
                | _ \<Rightarrow> Inr False)))"

text \<open>\<^verbatim>\<open>os.path.samefile\<close> as \<^verbatim>\<open>shutil\<close> uses it: both exist and are the same node.\<close>

definition samefile :: "fs \<Rightarrow> fpath \<Rightarrow> fpath \<Rightarrow> bool" where
  "samefile s a b =
     (case stat s a of
        None \<Rightarrow> False
      | Some (qa, na) \<Rightarrow> (case stat s b of None \<Rightarrow> False | Some (qb, nb) \<Rightarrow> qa = qb))"

text \<open>The names in a directory, in table order.\<close>

definition children :: "fs \<Rightarrow> fpath \<Rightarrow> string list" where
  "children s p = map (\<lambda>(q, nd). last q) (filter (\<lambda>(q, nd). q \<noteq> [] \<and> butlast q = p) (nodes s))"

subsection \<open>Commands\<close>

text \<open>
  A command takes the filesystem and returns its result, or the exception it raised,
  with the filesystem as it left it.
\<close>

type_synonym 'a io = "fs \<Rightarrow> (error + 'a) \<times> fs"

definition io_return :: "'a \<Rightarrow> 'a io" where
  "io_return x = (\<lambda>s. (Inr x, s))"

definition io_raise :: "error \<Rightarrow> 'a io" where
  "io_raise e = (\<lambda>s. (Inl e, s))"

definition io_bind :: "'a io \<Rightarrow> ('a \<Rightarrow> 'b io) \<Rightarrow> 'b io" where
  "io_bind m f = (\<lambda>s. case m s of (Inl e, s') \<Rightarrow> (Inl e, s') | (Inr x, s') \<Rightarrow> f x s')"

definition put_node :: "fpath \<Rightarrow> node \<Rightarrow> fs \<Rightarrow> fs" where
  "put_node p nd s = s\<lparr>nodes := AList.update p nd (nodes s)\<rparr>"

text \<open>What creating an entry at \<open>p\<close> needs of the directory that is to hold it.\<close>

definition parent_error :: "fs \<Rightarrow> fpath \<Rightarrow> error option" where
  "parent_error s p =
     (case stat s (parent p) of
        None \<Rightarrow> Some FileNotFoundError
      | Some (q, Dir) \<Rightarrow> None
      | Some (q, nd) \<Rightarrow> Some NotADirectoryError)"

definition os_mkdir :: "fpath \<Rightarrow> unit io" where
  "os_mkdir p = (\<lambda>s.
     if lstat s p \<noteq> None then (Inl FileExistsError, s)
     else (case parent_error s p of
             Some e \<Rightarrow> (Inl e, s)
           | None \<Rightarrow> (Inr (), put_node p Dir s)))"

text \<open>
  \<^verbatim>\<open>Path.mkdir(parents=True, exist_ok=True)\<close>, as pathlib writes it: try to make the
  directory; when the parent is missing make the parent first; any other \<^verbatim>\<open>OSError\<close> is
  let through unless the path is a directory already.
\<close>

definition mkdir_exist_ok :: "fpath \<Rightarrow> unit io" where
  "mkdir_exist_ok p = (\<lambda>s.
     case os_mkdir p s of
       (Inr u, s') \<Rightarrow> (Inr (), s')
     | (Inl e, s') \<Rightarrow>
         if e = FileNotFoundError then (Inl e, s')
         else if is_dir s' p then (Inr (), s') else (Inl e, s'))"

function mkdir_parents :: "fpath \<Rightarrow> unit io" where
  "mkdir_parents p s =
     (case os_mkdir p s of
        (Inr u, s') \<Rightarrow> (Inr (), s')
      | (Inl e, s') \<Rightarrow>
          if e = FileNotFoundError then
            (if p = [] then (Inl e, s')
             else (case mkdir_parents (parent p) s' of
                     (Inl e', s'') \<Rightarrow> (Inl e', s'')
                   | (Inr u, s'') \<Rightarrow> mkdir_exist_ok p s''))
          else if is_dir s' p then (Inr (), s') else (Inl e, s'))"
  by pat_completeness auto
termination
  by (relation "measure (\<lambda>(p, s). length p)") (auto simp: parent_def)

declare mkdir_parents.simps [simp del]

definition drop_tree :: "fpath \<Rightarrow> fs \<Rightarrow> fs" where
  "drop_tree p s =
     s\<lparr>nodes := filter (\<lambda>(q, nd). \<not> prefix p q) (nodes s),
       perm := filter (\<lambda>(q, m). \<not> prefix p q) (perm s)\<rparr>"

definition drop_node :: "fpath \<Rightarrow> fs \<Rightarrow> fs" where
  "drop_node p s = s\<lparr>nodes := AList.delete p (nodes s), perm := AList.delete p (perm s)\<rparr>"

text \<open>\<^verbatim>\<open>Path.unlink()\<close> removes a file or a link, never a directory.\<close>

definition unlink :: "fpath \<Rightarrow> unit io" where
  "unlink p = (\<lambda>s.
     case lstat s p of
       None \<Rightarrow> (Inl FileNotFoundError, s)
     | Some Dir \<Rightarrow> (Inl IsADirectoryError, s)
     | Some nd \<Rightarrow> (Inr (), drop_node p s))"

text \<open>\<^verbatim>\<open>shutil.rmtree\<close> refuses a link and removes a directory with all below it.\<close>

definition rmtree :: "fpath \<Rightarrow> unit io" where
  "rmtree p = (\<lambda>s.
     case lstat s p of
       None \<Rightarrow> (Inl FileNotFoundError, s)
     | Some (Link t) \<Rightarrow> (Inl OSError, s)
     | Some (File b) \<Rightarrow> (Inl NotADirectoryError, s)
     | Some Dir \<Rightarrow> (Inr (), drop_tree p s))"

text \<open>\<^verbatim>\<open>os.rmdir\<close> removes an empty directory.\<close>

definition rmdir :: "fpath \<Rightarrow> unit io" where
  "rmdir p = (\<lambda>s.
     case lstat s p of
       None \<Rightarrow> (Inl FileNotFoundError, s)
     | Some Dir \<Rightarrow> (if children s p = [] then (Inr (), drop_node p s) else (Inl OSError, s))
     | Some nd \<Rightarrow> (Inl NotADirectoryError, s))"

text \<open>\<^verbatim>\<open>any(p.iterdir())\<close>.\<close>

definition any_iterdir :: "fpath \<Rightarrow> bool io" where
  "any_iterdir p = (\<lambda>s.
     case stat s p of
       None \<Rightarrow> (Inl FileNotFoundError, s)
     | Some (q, Dir) \<Rightarrow> (Inr (children s q \<noteq> []), s)
     | Some (q, nd) \<Rightarrow> (Inl NotADirectoryError, s))"

definition symlink_to :: "fpath \<Rightarrow> fpath \<Rightarrow> unit io" where
  "symlink_to p target = (\<lambda>s.
     if lstat s p \<noteq> None then (Inl FileExistsError, s)
     else (case parent_error s p of
             Some e \<Rightarrow> (Inl e, s)
           | None \<Rightarrow> (Inr (), put_node p (Link target) s)))"

text \<open>
  Opening a path for writing follows links to the file that is overwritten, or to the
  missing location where a file is created.
\<close>

fun wtarget :: "nat \<Rightarrow> fs \<Rightarrow> fpath \<Rightarrow> error + fpath" where
  "wtarget 0 s p = Inl OSError"
| "wtarget (Suc n) s p =
     (case lstat s p of
        Some (Link t) \<Rightarrow> wtarget n s t
      | Some Dir \<Rightarrow> Inl IsADirectoryError
      | Some (File b) \<Rightarrow> Inr p
      | None \<Rightarrow> (case parent_error s p of Some e \<Rightarrow> Inl e | None \<Rightarrow> Inr p))"

definition write_bytes :: "fpath \<Rightarrow> bytes \<Rightarrow> unit io" where
  "write_bytes p b = (\<lambda>s.
     case wtarget max_links s p of
       Inl e \<Rightarrow> (Inl e, s)
     | Inr q \<Rightarrow> (Inr (), put_node q (File b) s))"

definition encode :: "string \<Rightarrow> bytes" where
  "encode t = map (\<lambda>c. of_nat (of_char c)) t"

definition write_text :: "fpath \<Rightarrow> string \<Rightarrow> unit io" where
  "write_text p t = write_bytes p (encode t)"

text \<open>\<^verbatim>\<open>os.chmod\<close> and \<^verbatim>\<open>shutil.copystat\<close> act on the node a path stands for.\<close>

definition chmod :: "fpath \<Rightarrow> nat \<Rightarrow> unit io" where
  "chmod p m = (\<lambda>s.
     case stat s p of
       None \<Rightarrow> (Inl FileNotFoundError, s)
     | Some (q, nd) \<Rightarrow> (Inr (), s\<lparr>perm := AList.update q m (perm s)\<rparr>))"

definition copystat :: "fpath \<Rightarrow> fpath \<Rightarrow> fs \<Rightarrow> fs" where
  "copystat src dst s =
     (case (stat s src, stat s dst) of
        (Some (qs, ns), Some (qd, nd)) \<Rightarrow>
          (case map_of (perm s) qs of
             None \<Rightarrow> s\<lparr>perm := AList.delete qd (perm s)\<rparr>
           | Some m \<Rightarrow> s\<lparr>perm := AList.update qd m (perm s)\<rparr>)
      | _ \<Rightarrow> s)"

text \<open>
  \<^verbatim>\<open>shutil.copy2(src, dst)\<close>: into \<open>dst\<close> when that is a directory; refuses to copy a
  file onto itself; reads the source, writes the destination, copies the mode.
\<close>

definition copy2 :: "fpath \<Rightarrow> fpath \<Rightarrow> unit io" where
  "copy2 src dst = (\<lambda>s.
     let d = (if is_dir s dst then dst @ [name src] else dst)
     in if samefile s src d then (Inl SameFileError, s)
        else (case read_bytes s src of
                Inl e \<Rightarrow> (Inl e, s)
              | Inr b \<Rightarrow>
                  (case write_bytes d b s of
                     (Inl e, s') \<Rightarrow> (Inl e, s')
                   | (Inr u, s') \<Rightarrow> (Inr (), copystat src d s'))))"

text \<open>
  \<^verbatim>\<open>os.makedirs(p)\<close> with \<^verbatim>\<open>exist_ok=False\<close>: the missing ancestors are made, an
  ancestor that appeared meanwhile is tolerated, the directory itself must be new.
\<close>

function makedirs :: "fpath \<Rightarrow> unit io" where
  "makedirs p s =
     (case (if p \<noteq> [] \<and> \<not> exists s (parent p)
            then (case makedirs (parent p) s of
                    (Inl e, s') \<Rightarrow> if e = FileExistsError then (Inr (), s') else (Inl e, s')
                  | (Inr u, s') \<Rightarrow> (Inr (), s'))
            else (Inr (), s)) of
        (Inl e, s') \<Rightarrow> (Inl e, s')
      | (Inr u, s') \<Rightarrow> os_mkdir p s')"
  by pat_completeness auto
termination
  by (relation "measure (\<lambda>(p, s). length p)") (auto simp: parent_def)

declare makedirs.simps [simp del]

text \<open>
  \<^verbatim>\<open>shutil.copytree(src, dst)\<close> with its defaults: the entries of \<open>src\<close> are listed, \<open>dst\<close>
  is made (it must not exist), then every entry that is a directory (links followed) is
  copied as a tree and every other one with \<^verbatim>\<open>copy2\<close>; a failing entry does not stop the
  others, and \<^verbatim>\<open>shutil.Error\<close> is raised at the end when one failed. The entries are
  those of the directory \<open>src\<close> stands for. The first argument bounds the depth of the
  recursion.
\<close>

fun copytree_n :: "nat \<Rightarrow> fpath \<Rightarrow> fpath \<Rightarrow> unit io"
  and copy_names :: "nat \<Rightarrow> fpath \<Rightarrow> fpath \<Rightarrow> string list \<Rightarrow> bool io" where
  "copytree_n 0 src dst s = (Inl OSError, s)"
| "copytree_n (Suc n) src dst s =
     (case stat s src of
        None \<Rightarrow> (Inl FileNotFoundError, s)
      | Some (q, Dir) \<Rightarrow>
          (case makedirs dst s of
             (Inl e, s1) \<Rightarrow> (Inl e, s1)
           | (Inr u, s1) \<Rightarrow>
               (case copy_names n q dst (children s q) s1 of
                  (Inl e, s2) \<Rightarrow> (Inl e, s2)
                | (Inr failed, s2) \<Rightarrow>
                    if failed then (Inl ShutilError, copystat src dst s2)
                    else (Inr (), copystat src dst s2)))
      | Some (q, nd) \<Rightarrow> (Inl NotADirectoryError, s))"
| "copy_names n src dst [] s = (Inr False, s)"
| "copy_names n src dst (c # cs) s =
     (case (if is_dir s (src @ [c]) then copytree_n n (src @ [c]) (dst @ [c]) s
            else copy2 (src @ [c]) (dst @ [c]) s) of
        (r, s1) \<Rightarrow>
          (case copy_names n src dst cs s1 of
             (Inl e, s2) \<Rightarrow> (Inl e, s2)
           | (Inr failed, s2) \<Rightarrow> (Inr (failed \<or> isl r), s2)))"

definition copytree :: "fpath \<Rightarrow> fpath \<Rightarrow> unit io" where
  "copytree src dst = (\<lambda>s. copytree_n (Suc (length (nodes s))) src dst s)"

section \<open>The symlink reconciler (files/linker.py)\<close>

text \<open>
  \<^verbatim>\<open>p.with_suffix(suf)\<close>: the last component loses its suffix (what follows its last dot,
  unless that dot is its first or last character) and gets \<open>suf\<close>; a path without a last
  component is refused.
\<close>

definition rfind_dot :: "string \<Rightarrow> nat option" where
  "rfind_dot nm =
     (if CHR ''.'' \<in> set nm
      then Some (length nm - 1 - length (takeWhile (\<lambda>c. c \<noteq> CHR ''.'') (rev nm)))
      else None)"

definition with_suffix :: "string \<Rightarrow> fpath \<Rightarrow> error + fpath" where
  "with_suffix suf p =
     (if name p = [] then Inl ValueError
      else (case rfind_dot (name p) of
              None \<Rightarrow> Inr (butlast p @ [name p @ suf])
            | Some i \<Rightarrow>
                if 0 < i \<and> i < length (name p) - 1
                then Inr (butlast p @ [take i (name p) @ suf])
                else Inr (butlast p @ [name p @ suf])))"

text \<open>
  The backup location: \<^verbatim>\<open>backup_dir / dest_abs.relative_to(Path.home())\<close>, or
  \<^verbatim>\<open>backup_dir / dest_abs.name\<close> when \<open>dest_abs\<close> is not under the home directory.
\<close>

definition backup_path_of :: "fpath \<Rightarrow> fpath \<Rightarrow> fpath \<Rightarrow> fpath" where
  "backup_path_of hm backup_dir dest_abs =
     (if prefix hm dest_abs then backup_dir @ drop (length hm) dest_abs
      else if name dest_abs = [] then backup_dir
      else backup_dir @ [name dest_abs])"

definition remove_if_exists :: "fpath \<Rightarrow> unit io" where
  "remove_if_exists p = (\<lambda>s. if exists s p then rmtree p s else (Inr (), s))"

text \<open>\<^verbatim>\<open>_backup_existing\<close> of linker.py.\<close>

definition backup_existing_linker :: "fpath \<Rightarrow> fpath \<Rightarrow> fpath option \<Rightarrow> bool io" where
  "backup_existing_linker hm dest_abs backup_dir =
     (case backup_dir of
        None \<Rightarrow> io_return False
      | Some bd \<Rightarrow> (\<lambda>s.
          if \<not> (exists s dest_abs \<or> is_symlink s dest_abs) then (Inr False, s)
          else
            (let backup_path = backup_path_of hm bd dest_abs
             in io_bind (mkdir_parents (parent backup_path)) (\<lambda>u s1.
                  if is_symlink s1 dest_abs then
                    (case (if exists s1 dest_abs
                           then map_sum id (\<lambda>q. str_of_path (Path ''/'' q)) (resolve s1 dest_abs)
                           else Inr ''broken'') of
                       Inl e \<Rightarrow> (Inl e, s1)
                     | Inr target \<Rightarrow>
                         (case with_suffix ''.symlink'' backup_path of
                            Inl e \<Rightarrow> (Inl e, s1)
                          | Inr bp \<Rightarrow>
                              io_bind (write_text bp target) (\<lambda>u. io_return True) s1))
                  else if is_dir s1 dest_abs then
                    io_bind (remove_if_exists backup_path) (\<lambda>u.
                    io_bind (copytree dest_abs backup_path) (\<lambda>u. io_return True)) s1
                  else io_bind (copy2 dest_abs backup_path) (\<lambda>u. io_return True) s1) s)))"

text \<open>
  The test \<^verbatim>\<open>dest_abs.resolve() == source.resolve()\<close> inside
  \<^verbatim>\<open>try: ... except OSError\<close>: the first component says whether an \<^verbatim>\<open>OSError\<close> was
  caught, the second whether the two resolved alike.
\<close>

definition resolve_equal :: "fs \<Rightarrow> fpath \<Rightarrow> fpath \<Rightarrow> error + bool \<times> bool" where
  "resolve_equal s a b =
     (case resolve s a of
        Inl e \<Rightarrow> if is_OSError e then Inr (True, False) else Inl e
      | Inr x \<Rightarrow>
          (case resolve s b of
             Inl e \<Rightarrow> if is_OSError e then Inr (True, False) else Inl e
           | Inr y \<Rightarrow> Inr (False, x = y)))"

definition create_symlink ::
  "fpath \<Rightarrow> fpath \<Rightarrow> path \<Rightarrow> bool \<Rightarrow> fpath option \<Rightarrow> (bool \<times> string) io" where
  "create_symlink hm src dst force backup_dir =
     (let dest_abs = join hm dst
      in io_bind (mkdir_parents (parent dest_abs)) (\<lambda>u s.
           if exists s dest_abs \<or> is_symlink s dest_abs then
             (case (if is_symlink s dest_abs then resolve_equal s dest_abs src
                    else Inr (False, False)) of
                Inl e \<Rightarrow> (Inl e, s)
              | Inr (caught, same) \<Rightarrow>
                  if same then (Inr (True, ''ok''), s)
                  else if \<not> force then (Inr (False, ''conflict''), s)
                  else
                    io_bind (backup_existing_linker hm dest_abs backup_dir) (\<lambda>b.
                    io_bind (\<lambda>s1. if is_dir s1 dest_abs \<and> \<not> is_symlink s1 dest_abs
                                   then rmtree dest_abs s1 else unlink dest_abs s1) (\<lambda>u.
                    io_bind (symlink_to dest_abs src) (\<lambda>u.
                    io_return (True, ''created'')))) s)
           else io_bind (symlink_to dest_abs src) (\<lambda>u. io_return (True, ''created'')) s))"

definition remove_symlink :: "fpath \<Rightarrow> path \<Rightarrow> bool io" where
  "remove_symlink hm dst =
     (let dest_abs = join hm dst
      in (\<lambda>s. if is_symlink s dest_abs
               then io_bind (unlink dest_abs) (\<lambda>u. io_return True) s
               else (Inr False, s)))"

definition check_symlink :: "fpath \<Rightarrow> fpath \<Rightarrow> path \<Rightarrow> fs \<Rightarrow> error + string" where
  "check_symlink hm src dst s =
     (let dest_abs = join hm dst
      in if \<not> exists s dest_abs \<and> \<not> is_symlink s dest_abs then Inr ''missing''
         else if \<not> is_symlink s dest_abs then Inr ''conflict''
         else (case resolve_equal s dest_abs src of
                 Inl e \<Rightarrow> Inl e
               | Inr (caught, same) \<Rightarrow>
                   if caught then Inr ''broken''
                   else if same then Inr ''ok'' else Inr ''wrong''))"

section \<open>The copy reconciler (files/copier.py)\<close>

text \<open>\<^verbatim>\<open>_backup_existing\<close> of copier.py.\<close>

definition backup_existing_copier :: "fpath \<Rightarrow> fpath \<Rightarrow> fpath option \<Rightarrow> bool io" where
  "backup_existing_copier hm dest_abs backup_dir =
     (case backup_dir of
        None \<Rightarrow> io_return False
      | Some bd \<Rightarrow> (\<lambda>s.
          if \<not> exists s dest_abs then (Inr False, s)
          else
            (let backup_path = backup_path_of hm bd dest_abs
             in io_bind (mkdir_parents (parent backup_path)) (\<lambda>u s1.
                  if is_dir s1 dest_abs then
                    io_bind (remove_if_exists backup_path) (\<lambda>u.
                    io_bind (copytree dest_abs backup_path) (\<lambda>u. io_return True)) s1
                  else io_bind (copy2 dest_abs backup_path) (\<lambda>u. io_return True) s1) s)))"

text \<open>\<^verbatim>\<open>_is_sensitive\<close>: the lower-cased text of the path contains one of the patterns.\<close>

definition lower_char :: "char \<Rightarrow> char" where
  "lower_char c =
     (let n = (of_char c :: nat) in if 65 \<le> n \<and> n \<le> 90 then char_of (n + 32) else c)"

definition sensitive_patterns :: "string list" where
  "sensitive_patterns =
     [''ssh'', ''secret'', ''key'', ''credential'', ''token'', ''password'']"

definition is_sensitive :: "path \<Rightarrow> bool" where
  "is_sensitive p =
     list_ex (\<lambda>pat. contains_str pat (map lower_char (str_of_path p))) sensitive_patterns"

text \<open>The part of \<^verbatim>\<open>copy_file\<close> after the check of the destination.\<close>

definition copy_over :: "fpath \<Rightarrow> path \<Rightarrow> fpath \<Rightarrow> (bool \<times> string) io" where
  "copy_over src dst dest_abs =
     io_bind (\<lambda>s. if is_dir s src
                  then io_bind (remove_if_exists dest_abs) (\<lambda>u. copytree src dest_abs) s
                  else copy2 src dest_abs s) (\<lambda>u.
     io_bind (if is_sensitive dst then chmod dest_abs 384 else io_return ()) (\<lambda>u.
     io_return (True, ''copied'')))"

definition copy_file ::
  "fpath \<Rightarrow> fpath \<Rightarrow> path \<Rightarrow> bool \<Rightarrow> fpath option \<Rightarrow> (bool \<times> string) io" where
  "copy_file hm src dst force backup_dir =
     (let dest_abs = join hm dst
      in io_bind (mkdir_parents (parent dest_abs)) (\<lambda>u s.
           if exists s dest_abs then
             (case (if is_file s dest_abs \<and> is_file s src then filecmp s src dest_abs
                    else Inr False) of
                Inl e \<Rightarrow> (Inl e, s)
              | Inr same \<Rightarrow>
                  if same then (Inr (True, ''ok''), s)
                  else if \<not> force then (Inr (False, ''conflict''), s)
                  else io_bind (backup_existing_copier hm dest_abs backup_dir) (\<lambda>b.
                       copy_over src dst dest_abs) s)
           else copy_over src dst dest_abs s))"

section \<open>apply and collect (commands/sync.py)\<close>

text \<open>
  What \<^verbatim>\<open>get_config()\<close> provides: the repository, the manifest file, the platform name,
  and the home directory \<^verbatim>\<open>Path.home()\<close>.
\<close>

record config =
  dotfiles_path :: fpath
  files_yaml :: path
  platform_name :: string
  home :: fpath

text \<open>The lines the two commands print, one constructor for each message of the source.\<close>

datatype event =
    No_files
  | Source_not_found file_entry
  | Dry_run file_entry
  | Already_ok file_entry
  | Applied file_entry
  | Exists_use_force file_entry
  | Failed file_entry string
  | Backups_saved fpath
  | Not_found_skipping file_entry
  | Symlink_skipping file_entry
  | Unchanged file_entry
  | Would_collect file_entry
  | Collected file_entry
  | Collect_error file_entry error

record tally =
  ok_count :: nat
  skip_count :: nat
  error_count :: nat
  out :: "event list"

definition say :: "event \<Rightarrow> tally \<Rightarrow> tally" where
  "say ev t = t\<lparr>out := out t @ [ev]\<rparr>"

text \<open>The dispatch on \<^verbatim>\<open>entry.type\<close>.\<close>

definition create_entry ::
  "config \<Rightarrow> file_entry \<Rightarrow> bool \<Rightarrow> fpath option \<Rightarrow> (bool \<times> string) io" where
  "create_entry cfg entry force backup_dir =
     (let source_abs = join (dotfiles_path cfg) (source entry)
      in if etype entry = YStr ''symlink''
         then create_symlink (home cfg) source_abs (dest entry) force backup_dir
         else copy_file (home cfg) source_abs (dest entry) force backup_dir)"

text \<open>The body of the loop of \<^verbatim>\<open>apply\<close>. Nothing in it catches an exception.\<close>

definition apply_entry ::
  "config \<Rightarrow> bool \<Rightarrow> bool \<Rightarrow> fpath option \<Rightarrow> file_entry \<Rightarrow> tally \<Rightarrow> tally io" where
  "apply_entry cfg force dry_run backup_dir entry t = (\<lambda>s.
     let source_abs = join (dotfiles_path cfg) (source entry)
     in if \<not> exists s source_abs then
          (Inr (say (Source_not_found entry) (t\<lparr>error_count := error_count t + 1\<rparr>)), s)
        else if dry_run then (Inr (say (Dry_run entry) t), s)
        else
          io_bind (create_entry cfg entry force backup_dir) (\<lambda>(ok, status).
            io_return
              (if ok then
                 say (if status = ''ok'' then Already_ok entry else Applied entry)
                   (t\<lparr>ok_count := ok_count t + 1\<rparr>)
               else if status = ''conflict'' \<and> \<not> force then
                 say (Exists_use_force entry) (t\<lparr>skip_count := skip_count t + 1\<rparr>)
               else
                 say (Failed entry status) (t\<lparr>error_count := error_count t + 1\<rparr>))) s)"

fun apply_entries ::
  "config \<Rightarrow> bool \<Rightarrow> bool \<Rightarrow> fpath option \<Rightarrow> file_entry list \<Rightarrow> tally \<Rightarrow> tally io" where
  "apply_entries cfg force dry_run backup_dir [] t = io_return t"
| "apply_entries cfg force dry_run backup_dir (e # es) t =
     io_bind (apply_entry cfg force dry_run backup_dir e t)
       (apply_entries cfg force dry_run backup_dir es)"

text \<open>
  \<^verbatim>\<open>apply(force, dry_run)\<close>. The document is what the manifest file holds and \<open>timestamp\<close>
  what the clock gives for the name of the backup directory. The tally with the printed
  lines is returned for inspection (the source returns nothing).
\<close>

definition apply_files :: "config \<Rightarrow> document \<Rightarrow> string \<Rightarrow> bool \<Rightarrow> bool \<Rightarrow> tally io" where
  "apply_files cfg doc timestamp force dry_run = (\<lambda>s.
     let t0 = \<lparr>ok_count = 0, skip_count = 0, error_count = 0, out = []\<rparr>
     in case manifest_load (files_yaml cfg) doc of
          Inl e \<Rightarrow> (Inl e, s)
        | Inr m \<Rightarrow>
            if entries m = [] then (Inr (say No_files t0), s)
            else
              (let es = for_platform m (platform_name cfg);
                   bd = dotfiles_path cfg @ [''backups'', ''pre-apply-'' @ timestamp];
                   backup_dir = (if force \<and> \<not> dry_run then Some bd else None)
               in io_bind (if force \<and> \<not> dry_run then mkdir_parents bd else io_return ()) (\<lambda>u.
                  io_bind (apply_entries cfg force dry_run backup_dir es t0) (\<lambda>t.
                    if \<not> dry_run \<and> backup_dir \<noteq> None then
                      io_bind (any_iterdir bd) (\<lambda>b.
                        if b then io_return (say (Backups_saved bd) t)
                        else io_bind (rmdir bd) (\<lambda>u. io_return t))
                    else io_return t)) s))"

text \<open>
  The body of the loop of \<^verbatim>\<open>collect\<close>; \<open>ok_count\<close> counts the collected entries and
  \<open>skip_count\<close> the skipped ones. Only the copy into the repository is inside
  \<^verbatim>\<open>try: ... except Exception\<close>.
\<close>

definition collect_copy :: "fpath \<Rightarrow> fpath \<Rightarrow> unit io" where
  "collect_copy source_abs dest_abs =
     io_bind (mkdir_parents (parent source_abs)) (\<lambda>u s.
       if is_dir s dest_abs
       then io_bind (remove_if_exists source_abs) (\<lambda>u. copytree dest_abs source_abs) s
       else copy2 dest_abs source_abs s)"

definition unchanged :: "fs \<Rightarrow> fpath \<Rightarrow> fpath \<Rightarrow> error + bool" where
  "unchanged s source_abs dest_abs =
     (if exists s source_abs then
        (if is_dir s dest_abs then Inr False
         else (case read_bytes s source_abs of
                 Inl e \<Rightarrow> Inl e
               | Inr a \<Rightarrow> (case read_bytes s dest_abs of Inl e \<Rightarrow> Inl e | Inr b \<Rightarrow> Inr (a = b))))
      else Inr False)"

definition collect_entry :: "config \<Rightarrow> bool \<Rightarrow> file_entry \<Rightarrow> tally \<Rightarrow> tally io" where
  "collect_entry cfg dry_run entry t = (\<lambda>s.
     let source_abs = join (dotfiles_path cfg) (source entry);
         dest_abs = join (home cfg) (dest entry)
     in if \<not> exists s dest_abs then
          (Inr (say (Not_found_skipping entry) (t\<lparr>skip_count := skip_count t + 1\<rparr>)), s)
        else if is_symlink s dest_abs then
          (Inr (say (Symlink_skipping entry) (t\<lparr>skip_count := skip_count t + 1\<rparr>)), s)
        else
          (case unchanged s source_abs dest_abs of
             Inl e \<Rightarrow> (Inl e, s)
           | Inr same \<Rightarrow>
               if same then
                 (Inr (say (Unchanged entry) (t\<lparr>skip_count := skip_count t + 1\<rparr>)), s)
               else if dry_run then
                 (Inr (say (Would_collect entry) (t\<lparr>ok_count := ok_count t + 1\<rparr>)), s)
               else
                 (case collect_copy source_abs dest_abs s of
                    (Inl e, s') \<Rightarrow> (Inr (say (Collect_error entry e) t), s')
                  | (Inr u, s') \<Rightarrow>
                      (Inr (say (Collected entry) (t\<lparr>ok_count := ok_count t + 1\<rparr>)), s'))))"

fun collect_entries :: "config \<Rightarrow> bool \<Rightarrow> file_entry list \<Rightarrow> tally \<Rightarrow> tally io" where
  "collect_entries cfg dry_run [] t = io_return t"
| "collect_entries cfg dry_run (e # es) t =
     io_bind (collect_entry cfg dry_run e t) (collect_entries cfg dry_run es)"

definition collect :: "config \<Rightarrow> document \<Rightarrow> bool \<Rightarrow> tally io" where
  "collect cfg doc dry_run = (\<lambda>s.
     let t0 = \<lparr>ok_count = 0, skip_count = 0, error_count = 0, out = []\<rparr>
     in case manifest_load (files_yaml cfg) doc of
          Inl e \<Rightarrow> (Inl e, s)
        | Inr m \<Rightarrow>
            if entries m = [] then (Inr (say No_files t0), s)
            else collect_entries cfg dry_run (for_platform m (platform_name cfg)) t0 s)"

section \<open>Shapes of the written document and sample data\<close>

text \<open>
  The nested shape: a mapping with distinct keys among \<^verbatim>\<open>symlinks\<close>, \<^verbatim>\<open>copies\<close> (each a
  mapping from source text to dest text) and \<^verbatim>\<open>platform\<close> (a mapping from platform names to
  mappings of \<^verbatim>\<open>symlinks\<close> and \<^verbatim>\<open>copies\<close>). With the flag set, no mapping at any level
  is empty.
\<close>

fun is_YStr :: "yaml \<Rightarrow> bool" where
  "is_YStr (YStr x) = True"
| "is_YStr y = False"

fun strs :: "bool \<Rightarrow> yaml \<Rightarrow> bool" where
  "strs ne (YMap m) = ((if ne then m \<noteq> [] else True) \<and> list_all (\<lambda>(k, v). is_YStr v) m)"
| "strs ne y = False"

definition is_section :: "string \<Rightarrow> bool" where
  "is_section k = (k = ''symlinks'' \<or> k = ''copies'')"

fun sec_item :: "bool \<Rightarrow> string \<times> yaml \<Rightarrow> bool" where
  "sec_item ne (k, v) = (is_section k \<and> strs ne v)"

fun secs :: "bool \<Rightarrow> yaml \<Rightarrow> bool" where
  "secs ne (YMap m) = ((if ne then m \<noteq> [] else True) \<and> list_all (sec_item ne) m)"
| "secs ne y = False"

fun plats :: "bool \<Rightarrow> yaml \<Rightarrow> bool" where
  "plats ne (YMap m) = ((if ne then m \<noteq> [] else True) \<and> list_all (\<lambda>(k, v). secs ne v) m)"
| "plats ne y = False"

fun top_item :: "bool \<Rightarrow> string \<times> yaml \<Rightarrow> bool" where
  "top_item ne (k, v) = (if k = ''platform'' then plats ne v else is_section k \<and> strs ne v)"

fun nested_shape :: "bool \<Rightarrow> yaml \<Rightarrow> bool" where
  "nested_shape ne (YMap m) = (distinct (map fst m) \<and> list_all (top_item ne) m)"
| "nested_shape ne y = False"

text \<open>The entry of the end-to-end scenario, and a manifest holding it.\<close>

definition gitconfig_entry :: file_entry where
  "gitconfig_entry =
     \<lparr>source = Path [] [''files'', ''gitconfig''], dest = Path [] [''.gitconfig''],
      etype = YStr ''symlink'', platform = YNull\<rparr>"

definition sample_config :: config where
  "sample_config =
     \<lparr>dotfiles_path = [''home'', ''u'', ''dotfiles''],
      files_yaml = Path ''/'' [''home'', ''u'', ''dotfiles'', ''config'', ''files.yaml''],
      platform_name = ''linux'',
      home = [''home'', ''u'']\<rparr>"

definition sample_manifest :: manifest where
  "sample_manifest = \<lparr>entries = [gitconfig_entry], mpath = files_yaml sample_config\<rparr>"

text \<open>
  Sample filesystems: a repository in \<^verbatim>\<open>/home/u/dotfiles\<close> holding a file and a directory,
  with a home directory that has nothing else (\<open>clean_fs\<close>), a dangling link at
  \<^verbatim>\<open>~/.gitconfig\<close> that points outside the repository (\<open>dangling_fs\<close>), a regular file
  where the directory \<^verbatim>\<open>~/.config\<close> should be (\<open>blocked_fs\<close>), and a copy of the
  repository's directory at \<^verbatim>\<open>~/.config/nvim\<close> (\<open>copied_fs\<close>).
\<close>

definition repo_nodes :: "(fpath \<times> node) list" where
  "repo_nodes =
     [([''home''], Dir), ([''home'', ''u''], Dir), ([''home'', ''u'', ''dotfiles''], Dir),
      ([''home'', ''u'', ''dotfiles'', ''files''], Dir),
      ([''home'', ''u'', ''dotfiles'', ''files'', ''gitconfig''], File [1, 2]),
      ([''home'', ''u'', ''dotfiles'', ''files'', ''nvim''], Dir),
      ([''home'', ''u'', ''dotfiles'', ''files'', ''nvim'', ''init.lua''], File [3])]"

definition clean_fs :: fs where
  "clean_fs = \<lparr>nodes = repo_nodes, perm = []\<rparr>"

definition dangling_fs :: fs where
  "dangling_fs =
     \<lparr>nodes = repo_nodes @ [([''home'', ''u'', ''.gitconfig''], Link [''mnt'', ''gone''])],
      perm = []\<rparr>"

definition blocked_fs :: fs where
  "blocked_fs = \<lparr>nodes = repo_nodes @ [([''home'', ''u'', ''.config''], File [7])], perm = []\<rparr>"

definition copied_fs :: fs where
  "copied_fs =
     \<lparr>nodes = repo_nodes @ [([''home'', ''u'', ''.config''], Dir),
        ([''home'', ''u'', ''.config'', ''nvim''], Dir),
        ([''home'', ''u'', ''.config'', ''nvim'', ''init.lua''], File [3])],
      perm = []\<rparr>"

definition nvim_entry :: "string \<Rightarrow> file_entry" where
  "nvim_entry t =
     \<lparr>source = Path [] [''files'', ''nvim''], dest = Path [] [''.config'', ''nvim''],
      etype = YStr t, platform = YNull\<rparr>"

text \<open>Sample documents in the flat shape; the last one has an item without \<^verbatim>\<open>source\<close>.\<close>

definition flat_doc :: "(string \<times> string \<times> string) list \<Rightarrow> document" where
  "flat_doc xs =
     Parsed (YMap [(''entries'', YList (map (\<lambda>(s, d, t).
       YMap [(''source'', YStr s), (''dest'', YStr d), (''type'', YStr t)]) xs))])"

definition two_entries_doc :: document where
  "two_entries_doc =
     flat_doc [(''files/nvim'', ''.config/nvim'', ''symlink''),
               (''files/gitconfig'', ''.gitconfig'', ''symlink'')]"




text \<open>The line a dry run of \<^verbatim>\<open>apply\<close> prints for an entry.\<close>

definition dry_line :: "config \<Rightarrow> fs \<Rightarrow> file_entry \<Rightarrow> event" where
  "dry_line cfg s e =
     (if exists s (join (dotfiles_path cfg) (source e)) then Dry_run e else Source_not_found e)"

text \<open>
  Two relations between filesystems used to state what \<^verbatim>\<open>mkdir\<close> may change: \<open>s'\<close> extends
  \<open>s\<close> when every node of \<open>s\<close> is still there, and \<open>s\<close> grows to \<open>s'\<close> towards \<open>p\<close> when the
  only change is that missing prefixes of \<open>p\<close> have become directories.
\<close>

definition extends :: "fs \<Rightarrow> fs \<Rightarrow> bool" where
  "extends s s' = (\<forall>p nd. lstat s p = Some nd \<longrightarrow> lstat s' p = Some nd)"

definition grows :: "fs \<Rightarrow> fs \<Rightarrow> fpath \<Rightarrow> bool" where
  "grows s s' p =
     (perm s' = perm s \<and>
      (\<forall>q. lstat s' q = lstat s q \<or> lstat s q = None \<and> lstat s' q = Some Dir \<and> prefix q p))"

text \<open>
  The home directory after \<^verbatim>\<open>~/.gitconfig\<close> was linked to the repository (\<open>linked_fs\<close>), and
  one where \<^verbatim>\<open>~/.gitconfig\<close> is a regular file of the user's own (\<open>conflict_fs\<close>).
\<close>

definition linked_fs :: fs where
  "linked_fs =
     \<lparr>nodes = repo_nodes @ [([''home'', ''u'', ''.gitconfig''],
                              Link [''home'', ''u'', ''dotfiles'', ''files'', ''gitconfig''])],
      perm = []\<rparr>"

definition conflict_fs :: fs where
  "conflict_fs =
     \<lparr>nodes = repo_nodes @ [([''home'', ''u'', ''.gitconfig''], File [9])], perm = []\<rparr>"






text \<open>The line a dry run of \<^verbatim>\<open>collect\<close> prints for an entry it gets to.\<close>

definition collect_line :: "config \<Rightarrow> fs \<Rightarrow> file_entry \<Rightarrow> event" where
  "collect_line cfg s e =
     (if \<not> exists s (join (home cfg) (dest e)) then Not_found_skipping e
      else if is_symlink s (join (home cfg) (dest e)) then Symlink_skipping e
      else if unchanged s (join (dotfiles_path cfg) (source e)) (join (home cfg) (dest e))
                = Inr True
      then Unchanged e
      else Would_collect e)"

text \<open>
  A manifest with two entries for one source; a home directory where \<^verbatim>\<open>~/.gitconfig\<close> is a
  link to \<^verbatim>\<open>~/old.gitconfig\<close>, which is not there (\<open>dangling_copy_fs\<close>), and the same after
  the source was written through the link (\<open>written_through_fs\<close>); a home directory with a
  regular file at \<^verbatim>\<open>~/.config/nvim\<close> (\<open>file_at_dir_fs\<close>).
\<close>

definition gitconfig_bak_entry :: file_entry where
  "gitconfig_bak_entry = gitconfig_entry\<lparr>dest := Path [] [''.gitconfig.bak'']\<rparr>"

definition shared_source_manifest :: manifest where
  "shared_source_manifest =
     \<lparr>entries = [gitconfig_entry, gitconfig_bak_entry], mpath = files_yaml sample_config\<rparr>"

definition gitconfig_copy_entry :: file_entry where
  "gitconfig_copy_entry = gitconfig_entry\<lparr>etype := YStr ''copy''\<rparr>"

definition dangling_copy_fs :: fs where
  "dangling_copy_fs =
     \<lparr>nodes = repo_nodes @ [([''home'', ''u'', ''.gitconfig''],
                              Link [''home'', ''u'', ''old.gitconfig''])],
      perm = []\<rparr>"

definition written_through_fs :: fs where
  "written_through_fs =
     \<lparr>nodes = repo_nodes @ [([''home'', ''u'', ''.gitconfig''],
                              Link [''home'', ''u'', ''old.gitconfig'']),
                             ([''home'', ''u'', ''old.gitconfig''], File [1, 2])],
      perm = []\<rparr>"

definition file_at_dir_fs :: fs where
  "file_at_dir_fs =
     \<lparr>nodes = repo_nodes @ [([''home'', ''u'', ''.config''], Dir),
                             ([''home'', ''u'', ''.config'', ''nvim''], File [5])],
      perm = []\<rparr>"

section \<open>Properties of the manifest\<close>

subsection \<open>add and remove\<close>

lemma update_existing_None:
  "d \<notin> dest ` set es \<Longrightarrow> update_existing s d t p es = None"
  by (induction es) auto

lemma update_existing_Some:
  "d \<in> dest ` set es \<Longrightarrow>
   update_existing s d t p es =
     Some (es[length (takeWhile (\<lambda>e. dest e \<noteq> d) es) :=
             \<lparr>source = s, dest = d, etype = t, platform = p\<rparr>])"
  by (induction es) auto

lemma map_dest_update:
  "d \<in> dest ` set es \<Longrightarrow>
   map dest (es[length (takeWhile (\<lambda>e. dest e \<noteq> d) es) :=
             \<lparr>source = s, dest = d, etype = t, platform = p\<rparr>]) = map dest es"
  by (induction es) auto

lemma pop_first_None: "d \<notin> dest ` set es \<Longrightarrow> pop_first d es = None"
  by (induction es) auto

lemma pop_first_Some:
  "d \<in> dest ` set es \<Longrightarrow>
   pop_first d es =
     Some (takeWhile (\<lambda>e. dest e \<noteq> d) es @ tl (dropWhile (\<lambda>e. dest e \<noteq> d) es))"
  by (induction es) auto

lemma manifest_add_entries:
  "entries (fst (snd (manifest_add s d t p m disk))) =
     (if d \<in> dest ` set (entries m)
      then (entries m)[length (takeWhile (\<lambda>e. dest e \<noteq> d) (entries m)) :=
             \<lparr>source = s, dest = d, etype = t, platform = p\<rparr>]
      else entries m @ [\<lparr>source = s, dest = d, etype = t, platform = p\<rparr>])"
  by (simp add: manifest_add_def Let_def update_existing_Some update_existing_None
      split: prod.splits)

lemma find_updated:
  "d \<in> dest ` set es \<Longrightarrow>
   find (\<lambda>e. dest e = d)
     (es[length (takeWhile (\<lambda>e. dest e \<noteq> d) es) :=
           \<lparr>source = s, dest = d, etype = t, platform = p\<rparr>])
     = Some \<lparr>source = s, dest = d, etype = t, platform = p\<rparr>"
  by (induction es) auto

text \<open>
  C8. \<^verbatim>\<open>Manifest.add\<close> with a dest that an entry already has overwrites the first such
  entry in place (its source, type and platform are the new ones, every other entry and
  the order stay) and the number of entries is unchanged; and whenever the dests were
  unique before an add, they are unique after it.
\<close>

theorem manifest_add_upserts:
  "(d \<in> dest ` set (entries m) \<longrightarrow>
      length (entries (fst (snd (manifest_add s d t p m disk)))) = length (entries m)
    \<and> entries (fst (snd (manifest_add s d t p m disk))) =
        (entries m)[length (takeWhile (\<lambda>e. dest e \<noteq> d) (entries m)) :=
                      \<lparr>source = s, dest = d, etype = t, platform = p\<rparr>]
    \<and> find (\<lambda>e. dest e = d) (entries (fst (snd (manifest_add s d t p m disk))))
        = Some \<lparr>source = s, dest = d, etype = t, platform = p\<rparr>)
   \<and> (distinct (map dest (entries m)) \<longrightarrow>
        distinct (map dest (entries (fst (snd (manifest_add s d t p m disk))))))"
proof (cases "d \<in> dest ` set (entries m)")
  case True
  then show ?thesis
    unfolding manifest_add_entries by (simp add: find_updated map_dest_update)
next
  case False
  then show ?thesis
    unfolding manifest_add_entries by simp
qed

theorem manifest_add_upserts_witness:
  "Path [] [''.gitconfig''] \<in> dest ` set (entries sample_manifest)
   \<and> distinct (map dest (entries sample_manifest))
   \<and> entries (fst (snd (manifest_add (Path [] [''files'', ''home'', ''.gitconfig''])
        (Path [] [''.gitconfig'']) (YStr ''copy'') (YStr ''linux'') sample_manifest Absent)))
     = [\<lparr>source = Path [] [''files'', ''home'', ''.gitconfig''],
         dest = Path [] [''.gitconfig''], etype = YStr ''copy'', platform = YStr ''linux''\<rparr>]"
  using manifest_add_upserts [of "Path [] [''.gitconfig'']" sample_manifest
      "Path [] [''files'', ''home'', ''.gitconfig'']" "YStr ''copy''" "YStr ''linux''" Absent]
  by (simp add: sample_manifest_def gitconfig_entry_def)

text \<open>
  C10. \<^verbatim>\<open>Manifest.remove\<close> with a dest that no entry has returns \<^verbatim>\<open>False\<close> and leaves the
  entries and the document on disk as they were. When an entry has the dest, the first
  such entry is removed and the manifest is saved; the call returns \<^verbatim>\<open>True\<close> when the
  save went through.
\<close>

theorem manifest_remove_persists_iff_found:
  "manifest_remove d m disk =
     (if d \<in> dest ` set (entries m)
      then (let m' = m\<lparr>entries := takeWhile (\<lambda>e. dest e \<noteq> d) (entries m)
                                   @ tl (dropWhile (\<lambda>e. dest e \<noteq> d) (entries m))\<rparr>
            in (map_sum id (\<lambda>u. True) (fst (manifest_save m' disk)), m',
                snd (manifest_save m' disk)))
      else (Inr False, m, disk))"
  by (auto simp: manifest_remove_def pop_first_None pop_first_Some Let_def
      split: prod.splits sum.splits)

theorem manifest_remove_persists_iff_found_witness:
  "manifest_remove (Path [] [''.vimrc'']) sample_manifest Absent
     = (Inr False, sample_manifest, Absent)
   \<and> manifest_remove (Path [] [''.gitconfig'']) sample_manifest Absent
     = (Inr True, sample_manifest\<lparr>entries := []\<rparr>, Parsed (YMap []))"
  using manifest_remove_persists_iff_found [of "Path [] [''.vimrc'']" sample_manifest Absent]
    manifest_remove_persists_iff_found [of "Path [] [''.gitconfig'']" sample_manifest Absent]
  by (simp add: sample_manifest_def gitconfig_entry_def manifest_save_def save_data_def
      clean_data_def)

subsection \<open>The shape save writes\<close>

lemma list_all_update:
  "list_all P m \<Longrightarrow> P (k, v) \<Longrightarrow> list_all P (AList.update k v m)"
  by (induction m) auto

lemma list_all_map_of:
  "list_all P m \<Longrightarrow> map_of m k = Some v \<Longrightarrow> P (k, v)"
  by (induction m) (auto split: if_splits)

lemma list_all_delete: "list_all P m \<Longrightarrow> list_all P (AList.delete k m)"
  by (induction m) auto

lemma list_all_filter_mono:
  "list_all P m \<Longrightarrow> (\<And>x. P x \<Longrightarrow> Q x \<Longrightarrow> R x) \<Longrightarrow> list_all R (filter Q m)"
  by (induction m) auto

text \<open>Generic facts on a mapping whose items satisfy \<open>P\<close>.\<close>

lemma sub_setdefault_cases:
  "sub (setdefault k (YMap m)) k = (case map_of m k of None \<Rightarrow> YMap [] | Some v \<Rightarrow> v)"
  by (simp add: sub_def setdefault_def update_conv' split: option.splits)

lemma item_sub_setdefault:
  assumes "list_all P m" and "P (k, YMap [])"
  shows "P (k, sub (setdefault k (YMap m)) k)"
  using assms by (auto simp: sub_setdefault_cases dest: list_all_map_of split: option.splits)

lemma items_setdefault:
  assumes "list_all P m" and "P (k, YMap [])"
  shows "\<exists>m'. setdefault k (YMap m) = YMap m' \<and> list_all P m'
          \<and> (distinct (map fst m) \<longrightarrow> distinct (map fst m'))"
  using assms by (auto simp: setdefault_def distinct_update intro: list_all_update)

lemma items_put:
  assumes "list_all P m" and "P (k, v)"
  shows "\<exists>m'. yput k v (YMap m) = YMap m' \<and> list_all P m'
          \<and> (distinct (map fst m) \<longrightarrow> distinct (map fst m'))"
  using assms by (auto simp: distinct_update intro: list_all_update)

lemma strs_put: "strs False d \<Longrightarrow> strs False (yput k (YStr x) d)"
  by (cases d) (auto intro!: list_all_update)

lemma secs_setdefault: "secs False d \<Longrightarrow> is_section k \<Longrightarrow> secs False (setdefault k d)"
  by (cases d) (auto simp: setdefault_def intro!: list_all_update)

lemma strs_sub_secs: "secs False d \<Longrightarrow> is_section k \<Longrightarrow> strs False (sub (setdefault k d) k)"
proof (cases d)
  case (YMap m)
  assume "secs False d" "is_section k"
  then have "sec_item False (k, sub (setdefault k (YMap m)) k)"
    using YMap by (intro item_sub_setdefault[where P = "sec_item False"]) simp_all
  then show ?thesis using YMap by simp
qed auto

lemma secs_put: "secs False d \<Longrightarrow> is_section k \<Longrightarrow> strs False v \<Longrightarrow> secs False (yput k v d)"
  by (cases d) (auto intro!: list_all_update)

lemma plats_setdefault: "plats False d \<Longrightarrow> plats False (setdefault k d)"
  by (cases d) (auto simp: setdefault_def intro!: list_all_update)

lemma plats_sub: "plats False d \<Longrightarrow> secs False (sub (setdefault k d) k)"
proof (cases d)
  case (YMap m)
  assume "plats False d"
  then have "(\<lambda>(k, v). secs False v) (k, sub (setdefault k (YMap m)) k)"
    using YMap by (intro item_sub_setdefault[where P = "\<lambda>(k, v). secs False v"]) simp_all
  then show ?thesis using YMap by simp
qed auto

lemma plats_put: "plats False d \<Longrightarrow> secs False v \<Longrightarrow> plats False (yput k v d)"
  by (cases d) (auto intro!: list_all_update)

lemma top_item_section: "is_section k \<Longrightarrow> top_item ne (k, v) = strs ne v"
  by (auto simp: is_section_def)

lemma shape_setdefault:
  assumes "nested_shape False d" and "top_item False (k, YMap [])"
  shows "nested_shape False (setdefault k d)"
proof (cases d)
  case (YMap m)
  with assms have "list_all (top_item False) m" "distinct (map fst m)" by simp_all
  from items_setdefault[OF this(1) assms(2)] this(2) YMap show ?thesis by auto
qed (use assms in auto)

lemma shape_sub:
  assumes "nested_shape False d" and "top_item False (k, YMap [])"
  shows "top_item False (k, sub (setdefault k d) k)"
proof (cases d)
  case (YMap m)
  with assms have "list_all (top_item False) m" by simp
  from item_sub_setdefault[OF this assms(2)] YMap show ?thesis by simp
qed (use assms in auto)

lemma shape_put:
  assumes "nested_shape False d" and "top_item False (k, v)"
  shows "nested_shape False (yput k v d)"
proof (cases d)
  case (YMap m)
  with assms have "list_all (top_item False) m" "distinct (map fst m)" by simp_all
  from items_put[OF this(1) assms(2)] this(2) YMap show ?thesis by auto
qed (use assms in auto)

lemma section_of_cases: "is_section (section_of e)"
  by (simp add: section_of_def is_section_def)

lemma top_platform: "top_item ne (''platform'', v) = plats ne v"
  by simp

lemma save_entry_shape:
  assumes "nested_shape False d" "save_entry e d = Inr d'"
  shows "nested_shape False d'"
proof (cases "truthy (platform e)")
  case False
  let ?k = "section_of e"
  have k: "is_section ?k" by (rule section_of_cases)
  have e: "top_item False (?k, YMap [])" using k by (simp add: top_item_section del: top_item.simps)
  from False assms(2) have d': "d' = yput ?k (yput (str_of_path (source e))
        (YStr (str_of_path (dest e))) (sub (setdefault ?k d) ?k)) (setdefault ?k d)"
    by (auto simp: save_entry_def Let_def)
  have 1: "nested_shape False (setdefault ?k d)" using assms(1) e by (rule shape_setdefault)
  have "top_item False (?k, sub (setdefault ?k d) ?k)" using assms(1) e by (rule shape_sub)
  then have "strs False (sub (setdefault ?k d) ?k)" using k by (simp add: top_item_section del: top_item.simps)
  then have "strs False (yput (str_of_path (source e)) (YStr (str_of_path (dest e)))
        (sub (setdefault ?k d) ?k))" by (rule strs_put)
  then have "top_item False (?k, yput (str_of_path (source e)) (YStr (str_of_path (dest e)))
        (sub (setdefault ?k d) ?k))" using k by (simp add: top_item_section del: top_item.simps)
  with 1 show ?thesis unfolding d' by (rule shape_put)
next
  case True
  with assms(2) obtain plat where p: "platform e = YStr plat"
    by (auto simp: save_entry_def Let_def split: yaml.splits)
  let ?d1 = "setdefault ''platform'' d"
  let ?pl1 = "setdefault plat (sub ?d1 ''platform'')"
  let ?se1 = "setdefault (section_of e) (sub ?pl1 plat)"
  let ?mp = "yput (str_of_path (source e)) (YStr (str_of_path (dest e))) (sub ?se1 (section_of e))"
  from True p assms(2) have d': "d' = yput ''platform'' (yput plat (yput (section_of e) ?mp ?se1) ?pl1) ?d1"
    by (auto simp: save_entry_def Let_def)
  have e: "top_item False (''platform'', YMap [])" by simp
  have 1: "nested_shape False ?d1" using assms(1) e by (rule shape_setdefault)
  have "top_item False (''platform'', sub ?d1 ''platform'')" using assms(1) e by (rule shape_sub)
  then have 2: "plats False (sub ?d1 ''platform'')" by simp
  have 3: "plats False ?pl1" using 2 by (rule plats_setdefault)
  have 4: "secs False (sub ?pl1 plat)" using 2 by (rule plats_sub)
  have 5: "secs False ?se1" using 4 section_of_cases by (rule secs_setdefault)
  have 6: "strs False (sub ?se1 (section_of e))" using 4 section_of_cases by (rule strs_sub_secs)
  have 7: "strs False ?mp" using 6 by (rule strs_put)
  have 8: "secs False (yput (section_of e) ?mp ?se1)" using 5 section_of_cases 7 by (rule secs_put)
  have 9: "plats False (yput plat (yput (section_of e) ?mp ?se1) ?pl1)" using 3 8 by (rule plats_put)
  then have "top_item False (''platform'', yput plat (yput (section_of e) ?mp ?se1) ?pl1)" by simp
  with 1 show ?thesis unfolding d' by (rule shape_put)
qed

lemma save_entries_shape:
  "nested_shape False d \<Longrightarrow> save_entries es d = Inr d' \<Longrightarrow> nested_shape False d'"
  by (induction es arbitrary: d) (auto split: sum.splits dest: save_entry_shape)

lemma strs_truthy: "strs False v \<Longrightarrow> truthy v \<Longrightarrow> strs True v"
  by (cases v) auto

lemma sec_item_truthy: "sec_item False x \<Longrightarrow> truthy (snd x) \<Longrightarrow> sec_item True x"
  by (cases x) (simp add: strs_truthy)

lemma secs_clean: "secs False v \<Longrightarrow> truthy (clean v) \<Longrightarrow> secs True (clean v)"
proof (cases v)
  case (YMap m)
  assume a: "secs False v" and t: "truthy (clean v)"
  have "list_all (sec_item True) (filter (\<lambda>(k, v). truthy v) m)"
    using a YMap by (auto intro!: list_all_filter_mono[where P = "sec_item False"] sec_item_truthy)
  then show ?thesis using t YMap by simp
qed auto

lemma plats_clean_list:
  "list_all (\<lambda>(k, v). secs False v) m \<Longrightarrow>
   list_all (\<lambda>(k, v). secs True v)
     (filter (\<lambda>(k, v). truthy v) (map (\<lambda>(k, v). (k, clean v)) m))"
  by (induction m) (auto simp: secs_clean)

lemma plats_clean:
  "plats False v \<Longrightarrow> truthy (clean_platforms v) \<Longrightarrow> plats True (clean_platforms v)"
  by (cases v) (auto simp: plats_clean_list)

lemma top_item_other:
  "k \<noteq> ''platform'' \<Longrightarrow> top_item False (k, v) \<Longrightarrow> truthy v \<Longrightarrow> top_item True (k, v)"
  by (simp add: strs_truthy)

lemma no_platform:
  "list_all (top_item False) m \<Longrightarrow> list_all (\<lambda>x. truthy (snd x)) m \<Longrightarrow>
   ''platform'' \<notin> fst ` set m \<Longrightarrow> list_all (top_item True) m"
proof (induction m)
  case (Cons x m)
  obtain k v where x: "x = (k, v)" by (cases x)
  with Cons.prems have "k \<noteq> ''platform''" "top_item False (k, v)" "truthy v" by auto
  then have "top_item True (k, v)" by (rule top_item_other)
  with Cons x show ?case by auto
qed simp

lemma upd_platform:
  "list_all (top_item False) m \<Longrightarrow> list_all (\<lambda>x. truthy (snd x)) m \<Longrightarrow>
   distinct (map fst m) \<Longrightarrow> plats True pv \<Longrightarrow>
   list_all (top_item True) (AList.update ''platform'' pv m)"
proof (induction m)
  case Nil
  then show ?case by simp
next
  case (Cons x m)
  obtain k v where x: "x = (k, v)" by (cases x)
  show ?case
  proof (cases "k = ''platform''")
    case True
    with Cons.prems x have "''platform'' \<notin> fst ` set m" by auto
    with Cons.prems have "list_all (top_item True) m" by (intro no_platform) auto
    with True x Cons.prems(4) show ?thesis by simp
  next
    case False
    with Cons.prems x have "top_item True (k, v)" by (intro top_item_other) auto
    moreover have "list_all (top_item True) (AList.update ''platform'' pv m)"
      using Cons by auto
    ultimately show ?thesis using False x by simp
  qed
qed

lemma del_platform:
  "list_all (top_item False) m \<Longrightarrow> list_all (\<lambda>x. truthy (snd x)) m \<Longrightarrow>
   list_all (top_item True) (AList.delete ''platform'' m)"
proof (induction m)
  case Nil
  then show ?case by simp
next
  case (Cons x m)
  obtain k v where x: "x = (k, v)" by (cases x)
  show ?case
  proof (cases "k = ''platform''")
    case True
    with Cons x show ?thesis by auto
  next
    case False
    with Cons.prems x have "top_item True (k, v)" by (intro top_item_other) auto
    moreover have "list_all (top_item True) (AList.delete ''platform'' m)"
      using Cons by auto
    ultimately show ?thesis using False x by simp
  qed
qed

lemma clean_data_shape:
  assumes "nested_shape False d"
  shows "nested_shape True (clean_data d)"
proof -
  from assms obtain m where d: "d = YMap m" by (cases d) auto
  let ?m1 = "filter (\<lambda>(k, v). truthy v) m"
  have c: "clean d = YMap ?m1" using d by simp
  have dist: "distinct (map fst ?m1)" using assms d by (simp add: distinct_map_filter)
  have inv: "list_all (top_item False) ?m1" using assms d by (simp add: list_all_iff)
  have tr: "list_all (\<lambda>x. truthy (snd x)) ?m1" by (auto simp: list_all_iff)
  show ?thesis
  proof (cases "map_of ?m1 ''platform''")
    case None
    then have "''platform'' \<notin> fst ` set ?m1" by (simp add: map_of_eq_None_iff)
    with inv tr have "list_all (top_item True) ?m1" by (rule no_platform)
    with None c dist show ?thesis by (simp add: clean_data_def)
  next
    case (Some pv)
    with inv have "top_item False (''platform'', pv)" by (rule list_all_map_of)
    then have pv: "plats False pv" by simp
    show ?thesis
    proof (cases "truthy (clean_platforms pv)")
      case True
      with pv have "plats True (clean_platforms pv)" by (rule plats_clean)
      with inv tr dist have "list_all (top_item True) (AList.update ''platform'' (clean_platforms pv) ?m1)"
        by (intro upd_platform)
      with Some True c dist show ?thesis by (simp add: clean_data_def Let_def distinct_update)
    next
      case False
      from inv tr have "list_all (top_item True) (AList.delete ''platform'' ?m1)"
        by (rule del_platform)
      with Some False c dist show ?thesis by (simp add: clean_data_def Let_def distinct_delete)
    qed
  qed
qed

lemma top_item_not_entries: "top_item ne (k, v) \<Longrightarrow> k \<noteq> ''entries''"
  by (auto simp: is_section_def split: if_splits)

lemma no_entries_key: "nested_shape ne d \<Longrightarrow> ylookup d ''entries'' = None"
proof (cases d)
  case (YMap m)
  assume "nested_shape ne d"
  with YMap have "list_all (top_item ne) m" by simp
  then have "map_of m ''entries'' = None"
  proof (induction m)
    case (Cons x m)
    then show ?case using top_item_not_entries by (cases x) auto
  qed simp
  with YMap show ?thesis by simp
qed auto

text \<open>
  The shape of what \<^verbatim>\<open>Manifest.save\<close> writes, whatever the entries: the nested shape of
  \<^verbatim>\<open>symlinks\<close>, \<^verbatim>\<open>copies\<close> and \<^verbatim>\<open>platform\<close> mappings with no empty mapping at any level, and
  no \<^verbatim>\<open>entries\<close> key.
\<close>

lemma save_writes_nested_shape:
  assumes "save_data es = Inr d"
  shows "nested_shape True d \<and> ylookup d ''entries'' = None"
proof -
  from assms obtain d0 where s: "save_entries es (YMap [(''symlinks'', YMap [])]) = Inr d0"
    and d: "d = clean_data d0"
    by (auto simp: save_data_def split: sum.splits)
  have "nested_shape False (YMap [(''symlinks'', YMap [])])" by (simp add: is_section_def)
  then have "nested_shape False d0" using s by (rule save_entries_shape)
  then have "nested_shape True d" unfolding d by (rule clean_data_shape)
  then show ?thesis by (simp add: no_entries_key)
qed

text \<open>
  C3. Saving the manifest of the end-to-end scenario writes a top-level \<^verbatim>\<open>symlinks\<close>
  mapping, the shape \<^verbatim>\<open>load\<close> calls the legacy format, and no \<^verbatim>\<open>entries\<close> list. The
  mapping is keyed by source: of two entries with one source only the last dest is
  written, and loading the written document gives a single entry.
\<close>

theorem save_writes_legacy_shape:
  "manifest_save sample_manifest Absent =
     (Inr (), Parsed (YMap [(''symlinks'', YMap [(''files/gitconfig'', YStr ''.gitconfig'')])]))
   \<and> manifest_save shared_source_manifest Absent =
     (Inr (), Parsed (YMap [(''symlinks'',
                             YMap [(''files/gitconfig'', YStr ''.gitconfig.bak'')])]))
   \<and> manifest_load (files_yaml sample_config)
        (snd (manifest_save shared_source_manifest Absent)) =
     Inr \<lparr>entries = [gitconfig_bak_entry], mpath = files_yaml sample_config\<rparr>"
  by code_simp

subsection \<open>load\<close>

lemma io_bind_simps [simp]:
  "io_bind m f s = (case m s of (Inl e, s') \<Rightarrow> (Inl e, s') | (Inr x, s') \<Rightarrow> f x s')"
  by (simp add: io_bind_def)

lemma io_return_simp [simp]: "io_return x s = (Inr x, s)"
  by (simp add: io_return_def)

lemma io_raise_simp [simp]: "io_raise e s = (Inl e, s)"
  by (simp add: io_raise_def)





















section \<open>Properties of the reconcilers and commands\<close>

subsection \<open>check_symlink\<close>

text \<open>
  C4. A dangling link at the destination that points outside the repository: the
  non-strict \<^verbatim>\<open>resolve()\<close> returns its target without raising, the targets differ, and
  \<^verbatim>\<open>check_symlink\<close> answers \<^verbatim>\<open>wrong\<close>, not \<^verbatim>\<open>broken\<close>.
\<close>

theorem check_symlink_dangling:
  "check_symlink (home sample_config)
     (join (dotfiles_path sample_config) (source gitconfig_entry)) (dest gitconfig_entry)
     dangling_fs = Inr ''wrong''"
  by code_simp

subsection \<open>apply\<close>

text \<open>
  C6. With a regular file where \<^verbatim>\<open>~/.config\<close> should be, \<^verbatim>\<open>create_symlink\<close> raises
  \<^verbatim>\<open>FileExistsError\<close> for the first entry (from \<^verbatim>\<open>mkdir\<close>); \<^verbatim>\<open>apply\<close> ends with that
  exception, and the second entry, which could be linked, is never tried.
\<close>

theorem apply_aborts_on_error:
  "apply_files sample_config two_entries_doc ''t'' False False blocked_fs
     = (Inl FileExistsError, blocked_fs)"
  by code_simp

subsection \<open>Dry runs\<close>

lemma apply_entries_dry_run:
  "apply_entries cfg force True bd es t s =
     (Inr (t\<lparr>error_count := error_count t
                + length (filter (\<lambda>e. \<not> exists s (join (dotfiles_path cfg) (source e))) es),
              out := out t @ map (dry_line cfg s) es\<rparr>), s)"
  by (induction es arbitrary: t) (auto simp: apply_entry_def say_def Let_def dry_line_def)

lemma collect_entry_dry_run: "snd (collect_entry cfg True e t s) = s"
  by (auto simp: collect_entry_def Let_def split: sum.splits)

lemma collect_entry_dry_run_out:
  "collect_entry cfg True e t s = (Inr t', s') \<Longrightarrow> out t' = out t @ [collect_line cfg s e]"
  by (auto simp: collect_entry_def Let_def say_def collect_line_def split: sum.splits if_splits)

lemma collect_entries_dry_run: "snd (collect_entries cfg True es t s) = s"
proof (induction es arbitrary: t)
  case (Cons e es)
  show ?case
    using collect_entry_dry_run[of cfg e t s] Cons
    by (cases "collect_entry cfg True e t s") (auto split: sum.splits)
qed simp

lemma collect_entries_dry_run_out:
  "collect_entries cfg True es t s = (Inr t', s') \<Longrightarrow>
   out t' = out t @ map (collect_line cfg s) es"
proof (induction es arbitrary: t)
  case (Cons e es)
  obtain r b where c: "collect_entry cfg True e t s = (r, b)"
    by (cases "collect_entry cfg True e t s")
  with collect_entry_dry_run[of cfg e t s] have b: "b = s" by simp
  from Cons.prems c obtain t1 where r: "r = Inr t1"
    and rest: "collect_entries cfg True es t1 s = (Inr t', s')"
    unfolding b by (cases r) auto
  from c r b have "out t1 = out t @ [collect_line cfg s e]"
    by (auto dest: collect_entry_dry_run_out)
  with Cons.IH[OF rest] show ?case by simp
qed simp

text \<open>
  With \<^verbatim>\<open>dry_run\<close> set, \<^verbatim>\<open>apply\<close> (whatever \<^verbatim>\<open>force\<close> is) and \<^verbatim>\<open>collect\<close> leave the
  filesystem exactly as it was, also when they end with an exception. \<^verbatim>\<open>apply\<close> prints
  for each entry of the platform the action it would take or that the source is missing;
  \<^verbatim>\<open>collect\<close>, when it gets through, prints for each entry the skip or the collecting it
  would do.
\<close>

lemma dry_run_no_mutation:
  "snd (apply_files cfg doc ts force True s) = s
   \<and> snd (collect cfg doc True s) = s
   \<and> (manifest_load (files_yaml cfg) doc = Inr m \<and> entries m \<noteq> [] \<longrightarrow>
        fst (apply_files cfg doc ts force True s) =
          Inr \<lparr>ok_count = 0, skip_count = 0,
               error_count = length (filter (\<lambda>e. \<not> exists s (join (dotfiles_path cfg) (source e)))
                                 (for_platform m (platform_name cfg))),
               out = map (dry_line cfg s) (for_platform m (platform_name cfg))\<rparr>
      \<and> (fst (collect cfg doc True s) = Inr t \<longrightarrow>
            out t = map (collect_line cfg s) (for_platform m (platform_name cfg))))"
proof -
  have a: "snd (apply_files cfg doc ts force True s) = s"
    by (auto simp: apply_files_def Let_def apply_entries_dry_run split: sum.splits)
  have c: "snd (collect cfg doc True s) = s"
    by (auto simp: collect_def Let_def collect_entries_dry_run split: sum.splits)
  have r: "fst (apply_files cfg doc ts force True s) =
          Inr \<lparr>ok_count = 0, skip_count = 0,
               error_count = length (filter (\<lambda>e. \<not> exists s (join (dotfiles_path cfg) (source e)))
                                 (for_platform m (platform_name cfg))),
               out = map (dry_line cfg s) (for_platform m (platform_name cfg))\<rparr>"
    if "manifest_load (files_yaml cfg) doc = Inr m" "entries m \<noteq> []"
    using that by (simp add: apply_files_def Let_def apply_entries_dry_run)
  have o: "out t = map (collect_line cfg s) (for_platform m (platform_name cfg))"
    if "manifest_load (files_yaml cfg) doc = Inr m" "entries m \<noteq> []"
      "fst (collect cfg doc True s) = Inr t"
  proof -
    from that obtain s' where "collect_entries cfg True (for_platform m (platform_name cfg))
        \<lparr>ok_count = 0, skip_count = 0, error_count = 0, out = []\<rparr> s = (Inr t, s')"
      by (cases "collect_entries cfg True (for_platform m (platform_name cfg))
        \<lparr>ok_count = 0, skip_count = 0, error_count = 0, out = []\<rparr> s")
         (auto simp: collect_def Let_def)
    from collect_entries_dry_run_out[OF this] show ?thesis by simp
  qed
  from a c r o show ?thesis by blast
qed

text \<open>
  C9. A dry run of \<^verbatim>\<open>collect\<close> over two entries, the first with a directory as source and
  a regular file at its destination: comparing the two reads the source directory as a
  file, which raises \<^verbatim>\<open>IsADirectoryError\<close> outside any \<^verbatim>\<open>try\<close>. The dry run ends with the
  exception (the filesystem untouched) and the second entry is never reported.
\<close>

theorem collect_dry_run_aborts:
  "collect sample_config two_entries_doc True file_at_dir_fs
     = (Inl IsADirectoryError, file_at_dir_fs)"
  by code_simp

subsection \<open>collect\<close>







subsection \<open>Facts about the filesystem\<close>

lemma lstat_put_node:
  "p \<noteq> [] \<Longrightarrow> lstat (put_node p nd s) q = (if q = p then Some nd else lstat s q)"
  by (simp add: lstat_def put_node_def update_conv')

lemma lstat_root [simp]: "lstat s [] = Some Dir"
  by (simp add: lstat_def)

lemma lstat_perm [simp]: "lstat (s\<lparr>perm := x\<rparr>) p = lstat s p"
  by (simp add: lstat_def)

lemma max_links_Suc: "max_links = Suc 39"
  by (simp add: max_links_def)

lemma extends_refl [simp]: "extends s s"
  by (simp add: extends_def)

lemma extends_trans: "extends s s1 \<Longrightarrow> extends s1 s2 \<Longrightarrow> extends s s2"
  by (simp add: extends_def)

lemma extends_perm [simp]: "extends s (s\<lparr>perm := x\<rparr>)"
  by (simp add: extends_def)

lemma extends_put_node: "lstat s p = None \<Longrightarrow> extends s (put_node p nd s)"
  by (cases "p = []") (auto simp: extends_def lstat_put_node)

lemma follow_extends:
  "extends s s' \<Longrightarrow> follow n s p = Some r \<Longrightarrow> follow n s' p = Some r"
proof (induction n arbitrary: p)
  case (Suc n)
  from Suc.prems(2) obtain nd where nd: "lstat s p = Some nd"
    by (cases "lstat s p") auto
  with Suc.prems(1) have nd': "lstat s' p = Some nd" by (simp add: extends_def)
  show ?case using Suc nd nd' by (cases nd) auto
qed simp

lemma stat_extends: "extends s s' \<Longrightarrow> stat s p = Some r \<Longrightarrow> stat s' p = Some r"
  unfolding stat_def by (rule follow_extends)

lemma exists_extends: "extends s s' \<Longrightarrow> exists s p \<Longrightarrow> exists s' p"
  by (auto simp: exists_def dest: stat_extends)

lemma is_dir_extends: "extends s s' \<Longrightarrow> is_dir s p \<Longrightarrow> is_dir s' p"
  by (auto simp: is_dir_def dest: stat_extends split: option.splits prod.splits node.splits)

lemma is_file_extends: "extends s s' \<Longrightarrow> is_file s p \<Longrightarrow> is_file s' p"
  by (auto simp: is_file_def dest: stat_extends split: option.splits prod.splits node.splits)

lemma follow_not_link: "follow n s p = Some (q, nd) \<Longrightarrow> lstat s q = Some nd \<and> (\<forall>t. nd \<noteq> Link t)"
  by (induction n arbitrary: p) (auto split: option.splits node.splits)

lemma follow_res:
  "follow n s p = Some (q, nd) \<Longrightarrow> n \<le> m \<Longrightarrow> res m s p = Some q"
proof (induction n arbitrary: p m)
  case (Suc n)
  then obtain m' where m: "m = Suc m'" by (cases m) auto
  with Suc.prems Suc.IH show ?case by (auto split: option.splits node.splits)
qed simp

lemma stat_unfold:
  "stat s p =
     (case lstat s p of
        None \<Rightarrow> None
      | Some (Link t) \<Rightarrow> follow 39 s t
      | Some nd \<Rightarrow> Some (p, nd))"
  by (simp only: stat_def max_links_Suc follow.simps)

lemma is_dir_lstat: "is_dir s p \<Longrightarrow> lstat s p \<noteq> None"
  by (auto simp: is_dir_def stat_unfold split: option.splits)

lemma lstat_Dir_is_dir: "lstat s p = Some Dir \<Longrightarrow> is_dir s p"
  by (simp add: is_dir_def stat_unfold)

lemma perm_put_node [simp]: "perm (put_node p nd s) = perm s"
  by (simp add: put_node_def)

subsection \<open>mkdir\<close>

lemma os_mkdir_exists: "lstat s p \<noteq> None \<Longrightarrow> os_mkdir p s = (Inl FileExistsError, s)"
  by (simp add: os_mkdir_def)

lemma mkdir_parents_noop: "is_dir s p \<Longrightarrow> mkdir_parents p s = (Inr (), s)"
  by (frule is_dir_lstat) (subst mkdir_parents.simps, simp add: os_mkdir_exists)

lemma grows_refl [simp]: "grows s s p"
  by (simp add: grows_def)

lemma grows_trans: "grows s s1 p \<Longrightarrow> grows s1 s2 p \<Longrightarrow> grows s s2 p"
  unfolding grows_def by (metis option.distinct(1))

lemma grows_parent: "grows s s' (parent p) \<Longrightarrow> grows s s' p"
  unfolding grows_def parent_def
  by (metis prefix_order.trans prefixeq_butlast)

lemma os_mkdir_grows: "os_mkdir p s = (r, s') \<Longrightarrow> grows s s' p"
  by (cases "p = []")
     (auto simp: os_mkdir_def grows_def lstat_put_node split: if_splits option.splits)

lemma os_mkdir_ok: "os_mkdir p s = (Inr u, s') \<Longrightarrow> is_dir s' p"
  by (cases "p = []")
     (auto simp: os_mkdir_def lstat_put_node intro!: lstat_Dir_is_dir split: if_splits option.splits)

lemma mkdir_exist_ok_grows: "mkdir_exist_ok p s = (r, s') \<Longrightarrow> grows s s' p"
  by (cases "os_mkdir p s")
     (auto simp: mkdir_exist_ok_def dest: os_mkdir_grows split: sum.splits if_splits)

lemma mkdir_exist_ok_ok: "mkdir_exist_ok p s = (Inr u, s') \<Longrightarrow> is_dir s' p"
  by (cases "os_mkdir p s")
     (auto simp: mkdir_exist_ok_def dest: os_mkdir_ok split: sum.splits if_splits)

lemma mkdir_parents_grows: "mkdir_parents p s = (r, s') \<Longrightarrow> grows s s' p"
proof (induction p s arbitrary: r s' rule: mkdir_parents.induct)
  case (1 p s)
  obtain r0 s0 where o: "os_mkdir p s = (r0, s0)" by (cases "os_mkdir p s")
  then have g0: "grows s s0 p" by (rule os_mkdir_grows)
  note unf = "1.prems"[unfolded mkdir_parents.simps[of p s] o]
  show ?case
  proof (cases r0)
    case (Inr u)
    with unf g0 show ?thesis by simp
  next
    case (Inl e)
    show ?thesis
    proof (cases "e = FileNotFoundError \<and> p \<noteq> []")
      case False
      with Inl unf g0 show ?thesis by (auto split: if_splits)
    next
      case True
      obtain r1 s1 where m: "mkdir_parents (parent p) s0 = (r1, s1)"
        by (cases "mkdir_parents (parent p) s0")
      from True have "grows s0 s1 (parent p)"
        by (intro "1.IH"[OF o[symmetric] Inl _ _ m]) simp_all
      then have g1: "grows s0 s1 p" by (rule grows_parent)
      show ?thesis
      proof (cases r1)
        case (Inl e1)
        with True \<open>r0 = Inl e\<close> m unf have "s' = s1" by simp
        with g0 g1 show ?thesis by (auto intro: grows_trans)
      next
        case (Inr u)
        with True \<open>r0 = Inl e\<close> m unf have "mkdir_exist_ok p s1 = (r, s')" by simp
        then have "grows s1 s' p" by (rule mkdir_exist_ok_grows)
        with g0 g1 show ?thesis by (auto intro: grows_trans)
      qed
    qed
  qed
qed

lemma mkdir_parents_ok: "mkdir_parents p s = (Inr u, s') \<Longrightarrow> is_dir s' p"
proof -
  assume a: "mkdir_parents p s = (Inr u, s')"
  obtain r0 s0 where o: "os_mkdir p s = (r0, s0)" by (cases "os_mkdir p s")
  note unf = a[unfolded mkdir_parents.simps[of p s] o]
  show ?thesis
  proof (cases r0)
    case (Inr v)
    with unf have "s' = s0" by simp
    with o Inr show ?thesis by (auto dest: os_mkdir_ok)
  next
    case (Inl e)
    show ?thesis
    proof (cases "e = FileNotFoundError")
      case False
      with Inl unf show ?thesis by (auto split: if_splits)
    next
      case True
      with Inl unf show ?thesis
        by (auto split: if_splits prod.splits sum.splits dest: mkdir_exist_ok_ok)
    qed
  qed
qed

lemma grows_extends: "grows s s' p \<Longrightarrow> extends s s'"
  unfolding grows_def extends_def by (metis option.distinct(1))

lemma grows_links: "grows s s' p \<Longrightarrow> lstat s' q = Some (Link t) \<Longrightarrow> lstat s q = Some (Link t)"
  unfolding grows_def by (metis node.distinct(5) option.inject)

lemma grows_outside: "grows s s' p \<Longrightarrow> \<not> prefix q p \<Longrightarrow> lstat s' q = lstat s q"
  unfolding grows_def by metis


subsection \<open>No silent clobber\<close>

text \<open>
  Where the reconcilers see the destination (for \<^verbatim>\<open>copy_file\<close> that is \<^verbatim>\<open>exists()\<close>, links
  followed), and the directory holding it is a directory, they return the conflict and
  leave the filesystem as it is.
\<close>

lemma create_symlink_conflict:
  assumes "is_dir s (parent (join hm dst))"
    and "exists s (join hm dst) \<or> is_symlink s (join hm dst)"
    and "is_symlink s (join hm dst) \<Longrightarrow> resolve_equal s (join hm dst) src = Inr (c, False)"
  shows "create_symlink hm src dst False backup_dir s = (Inr (False, ''conflict''), s)"
  using assms
  by (auto simp: create_symlink_def Let_def mkdir_parents_noop)

lemma copy_file_conflict:
  assumes "is_dir s (parent (join hm dst))"
    and "exists s (join hm dst)"
    and "\<not> (is_file s (join hm dst) \<and> is_file s src \<and> filecmp s src (join hm dst) = Inr True)"
  shows "copy_file hm src dst False backup_dir s = (Inr (False, ''conflict''), s)"
proof -
  have "filecmp s src (join hm dst) = Inr False"
    if "is_file s (join hm dst)" "is_file s src"
    using that assms(3)
    by (auto simp: filecmp_def is_file_def split: option.splits prod.splits node.splits)
  then show ?thesis
    using assms
    by (auto simp: copy_file_def Let_def mkdir_parents_noop)
qed

text \<open>
  C2. A copy entry whose destination \<^verbatim>\<open>~/.gitconfig\<close> is occupied by a link to a file that
  is not there: \<^verbatim>\<open>copy_file\<close> tests \<^verbatim>\<open>dest_abs.exists()\<close> only, which follows the link
  and finds nothing, so with \<^verbatim>\<open>force=False\<close> it does not return the conflict; it writes
  the source through the link, creating \<^verbatim>\<open>~/old.gitconfig\<close>, and returns
  \<^verbatim>\<open>(True, "copied")\<close>.
\<close>

theorem copy_file_writes_through_link:
  "create_entry sample_config gitconfig_copy_entry False None dangling_copy_fs
     = (Inr (True, ''copied''), written_through_fs)"
  by code_simp

subsection \<open>Idempotence\<close>

lemma not_exists_not_symlink: "\<not> exists s p \<Longrightarrow> \<not> is_symlink s p \<Longrightarrow> lstat s p = None"
  by (auto simp: exists_def is_symlink_def stat_unfold split: option.splits node.splits)

lemma symlink_to_ok:
  "symlink_to p t s = (Inr u, s') \<Longrightarrow> lstat s p = None \<and> p \<noteq> [] \<and> s' = put_node p (Link t) s"
  by (cases "p = []") (auto simp: symlink_to_def split: if_splits option.splits)

text \<open>After a link to an existing source was made, link and source resolve alike.\<close>

lemma link_resolves_to_source:
  assumes "exists s src" and "lstat s p = None" and "p \<noteq> []"
  shows "\<exists>q. resolve (put_node p (Link src) s) p = Inr q
           \<and> resolve (put_node p (Link src) s) src = Inr q"
proof -
  let ?s' = "put_node p (Link src) s"
  from assms(1) obtain q nd where f: "follow max_links s src = Some (q, nd)"
    by (auto simp: exists_def stat_def)
  have "extends s ?s'" using assms(2) by (rule extends_put_node)
  then have f': "follow max_links ?s' src = Some (q, nd)" using f by (rule follow_extends)
  have "nodes ?s' \<noteq> []" by (simp add: put_node_def)
  then obtain k where k: "max_links + length (nodes ?s') = Suc k" and le: "max_links \<le> k"
    by (cases "nodes ?s'") auto
  have 1: "res (Suc k) ?s' src = Some q" using f' by (rule follow_res) (use le in simp)
  have 2: "res k ?s' src = Some q" using f' le by (rule follow_res)
  have "res (Suc k) ?s' p = res k ?s' src"
    using assms(3) by (simp add: lstat_put_node)
  with 1 2 k show ?thesis by (simp add: resolve_def)
qed

lemma create_symlink_twice:
  assumes src: "exists s src"
    and first: "create_symlink hm src dst False backup_dir s = (Inr (True, status), s1)"
  shows "create_symlink hm src dst False backup_dir s1 = (Inr (True, ''ok''), s1)"
proof -
  let ?D = "join hm dst"
  obtain r m1 where mk: "mkdir_parents (parent ?D) s = (r, m1)"
    by (cases "mkdir_parents (parent ?D) s")
  with first have r: "r = Inr ()" by (cases r) (auto simp: create_symlink_def Let_def)
  have dir1: "is_dir m1 (parent ?D)" using mk r by (auto dest: mkdir_parents_ok)
  have ext1: "extends s m1" using mk by (auto dest: mkdir_parents_grows grows_extends)
  have src1: "exists m1 src" using ext1 src by (rule exists_extends)
  show ?thesis
  proof (cases "exists m1 ?D \<or> is_symlink m1 ?D")
    case True
    show ?thesis
    proof (cases "is_symlink m1 ?D")
      case False
      with first mk r True show ?thesis by (simp add: create_symlink_def Let_def)
    next
      case sym: True
      show ?thesis
      proof (cases "resolve_equal m1 ?D src")
        case (Inl e)
        with first mk r True sym show ?thesis by (simp add: create_symlink_def Let_def)
      next
        case (Inr cs)
        obtain c same where cs: "cs = (c, same)" by (cases cs)
        from first mk r True sym Inr cs have same: "same" and s1: "s1 = m1"
          by (auto simp: create_symlink_def Let_def split: if_splits)
        show ?thesis
          unfolding s1 using True sym Inr cs same dir1
          by (simp add: create_symlink_def Let_def mkdir_parents_noop)
      qed
    qed
  next
    case False
    with first mk r obtain u where sl: "symlink_to ?D src m1 = (Inr u, s1)"
      by (auto simp: create_symlink_def Let_def split: sum.splits prod.splits)
    from symlink_to_ok[OF sl] have none: "lstat m1 ?D = None" and ne: "?D \<noteq> []"
      and s1: "s1 = put_node ?D (Link src) m1" by simp_all
    have ext2: "extends m1 s1" unfolding s1 using none by (rule extends_put_node)
    have dir2: "is_dir s1 (parent ?D)" using ext2 dir1 by (rule is_dir_extends)
    have link: "is_symlink s1 ?D" using ne by (simp add: s1 is_symlink_def lstat_put_node)
    from link_resolves_to_source[OF src1 none ne] obtain q where
      "resolve s1 ?D = Inr q" "resolve s1 src = Inr q"
      unfolding s1 by blast
    then have "resolve_equal s1 ?D src = Inr (False, True)"
      by (simp add: resolve_equal_def)
    with dir2 link show ?thesis
      by (simp add: create_symlink_def Let_def mkdir_parents_noop)
  qed
qed

text \<open>The queries read the nodes only.\<close>

lemma follow_lstat_cong:
  "(\<And>p. lstat s' p = lstat s p) \<Longrightarrow> follow n s' p = follow n s p"
  by (induction n arbitrary: p) (auto split: option.splits node.splits)

lemma stat_lstat_cong: "(\<And>p. lstat s' p = lstat s p) \<Longrightarrow> stat s' p = stat s p"
  unfolding stat_def by (rule follow_lstat_cong)

lemma lstat_copystat [simp]: "lstat (copystat a b s) p = lstat s p"
  by (simp add: copystat_def split: option.splits prod.splits)

lemma chmod_lstat: "chmod p m s = (r, s') \<Longrightarrow> lstat s' q = lstat s q"
  by (auto simp: chmod_def split: option.splits prod.splits)

lemma wtarget_new:
  "wtarget n s p = Inr q \<Longrightarrow> follow n s p = None \<Longrightarrow> lstat s q = None"
  by (induction n arbitrary: p) (auto split: option.splits node.splits)

lemma wtarget_written:
  "wtarget n s p = Inr q \<Longrightarrow> lstat s q = None \<Longrightarrow>
   follow n (put_node q (File b) s) p = Some (q, File b)"
proof (induction n arbitrary: p)
  case (Suc n)
  from Suc.prems(2) have ne: "q \<noteq> []" by auto
  show ?case
  proof (cases "lstat s p")
    case None
    with Suc.prems have "q = p" by (auto split: option.splits)
    with ne show ?thesis by (simp add: lstat_put_node)
  next
    case (Some nd)
    with Suc.prems(2) have pq: "p \<noteq> q" by auto
    show ?thesis
    proof (cases nd)
      case (Link t)
      with Some Suc.prems have "wtarget n s t = Inr q" by simp
      then have "follow n (put_node q (File b) s) t = Some (q, File b)"
        using Suc.prems(2) by (rule Suc.IH)
      with Some Link pq ne show ?thesis by (simp add: lstat_put_node)
    qed (use Some Suc.prems pq in auto)
  qed
qed simp

text \<open>What a successful \<^verbatim>\<open>copy2\<close> onto a path that does not exist leaves behind.\<close>

lemma copy2_new:
  assumes "copy2 src dst s = (Inr u, s')" and "\<not> exists s dst"
  shows "\<exists>q b qs. stat s src = Some (qs, File b) \<and> lstat s q = None
           \<and> stat (put_node q (File b) s) dst = Some (q, File b)
           \<and> (\<forall>p. lstat s' p = lstat (put_node q (File b) s) p)"
proof -
  from assms(2) have nd: "\<not> is_dir s dst"
    by (auto simp: is_dir_def exists_def split: option.splits)
  from assms(1) nd obtain b where rb: "read_bytes s src = Inr b"
    by (auto simp: copy2_def Let_def split: if_splits sum.splits)
  then obtain qs where st: "stat s src = Some (qs, File b)"
    by (auto simp: read_bytes_def split: option.splits prod.splits node.splits)
  from assms(1) nd rb obtain q where wt: "wtarget max_links s dst = Inr q"
    and s': "s' = copystat src dst (put_node q (File b) s)"
    by (auto simp: copy2_def Let_def write_bytes_def split: if_splits sum.splits prod.splits)
  from assms(2) have "follow max_links s dst = None"
    by (cases "follow max_links s dst") (auto simp: exists_def stat_def)
  with wt have none: "lstat s q = None" by (rule wtarget_new)
  with wt have "follow max_links (put_node q (File b) s) dst = Some (q, File b)"
    by (rule wtarget_written)
  with st none s' show ?thesis by (auto simp: stat_def)
qed

lemma copy_file_twice:
  assumes src: "is_file s src"
    and first: "copy_file hm src dst False backup_dir s = (Inr (True, status), s1)"
  shows "copy_file hm src dst False backup_dir s1 = (Inr (True, ''ok''), s1)"
proof -
  let ?D = "join hm dst"
  obtain r m1 where mk: "mkdir_parents (parent ?D) s = (r, m1)"
    by (cases "mkdir_parents (parent ?D) s")
  with first have r: "r = Inr ()" by (cases r) (auto simp: copy_file_def Let_def)
  have dir1: "is_dir m1 (parent ?D)" using mk r by (auto dest: mkdir_parents_ok)
  have ext1: "extends s m1" using mk by (auto dest: mkdir_parents_grows grows_extends)
  have src1: "is_file m1 src" using ext1 src by (rule is_file_extends)
  then have nodir: "\<not> is_dir m1 src"
    by (auto simp: is_file_def is_dir_def split: option.splits prod.splits node.splits)
  show ?thesis
  proof (cases "exists m1 ?D")
    case True
    with first mk r have s1: "s1 = m1"
      and ok: "is_file m1 ?D \<and> is_file m1 src \<and> filecmp m1 src ?D = Inr True"
      by (auto simp: copy_file_def Let_def split: if_splits sum.splits)
    show ?thesis
      unfolding s1 using True ok dir1
      by (simp add: copy_file_def Let_def mkdir_parents_noop)
  next
    case False
    with first mk r have "copy_over src dst ?D m1 = (Inr (True, status), s1)"
      by (simp add: copy_file_def Let_def)
    with nodir obtain u c1 where c2: "copy2 src ?D m1 = (Inr u, c1)"
      and eq1: "\<And>p. lstat s1 p = lstat c1 p"
      by (auto simp: copy_over_def split: sum.splits prod.splits if_splits dest: chmod_lstat)
    from copy2_new[OF c2 False] obtain q b qs where
      st: "stat m1 src = Some (qs, File b)" and none: "lstat m1 q = None"
      and dst: "stat (put_node q (File b) m1) ?D = Some (q, File b)"
      and eq2: "\<And>p. lstat c1 p = lstat (put_node q (File b) m1) p"
      by blast
    let ?W = "put_node q (File b) m1"
    have eq: "\<And>p. lstat s1 p = lstat ?W p" using eq1 eq2 by simp
    have stat_eq: "\<And>p. stat s1 p = stat ?W p" using eq by (rule stat_lstat_cong)
    have extW: "extends m1 ?W" using none by (rule extends_put_node)
    have srcW: "stat ?W src = Some (qs, File b)" using extW st by (rule stat_extends)
    have "is_dir ?W (parent ?D)" using extW dir1 by (rule is_dir_extends)
    then have dir2: "is_dir s1 (parent ?D)" by (simp add: is_dir_def stat_eq)
    show ?thesis
      using dir2 dst srcW
      by (simp add: copy_file_def Let_def mkdir_parents_noop exists_def is_file_def
          filecmp_def stat_eq)
  qed
qed

text \<open>
  C1, as the code has it. For an entry whose source exists and, when it is a copy entry,
  is a regular file: if \<^verbatim>\<open>create\<close> with \<^verbatim>\<open>force=False\<close> returned \<^verbatim>\<open>ok = True\<close>, running it
  again on the filesystem it left returns \<^verbatim>\<open>(True, "ok")\<close> and changes nothing.
\<close>

theorem create_twice_is_noop:
  assumes "if etype e = YStr ''symlink''
           then exists s (join (dotfiles_path cfg) (source e))
           else is_file s (join (dotfiles_path cfg) (source e))"
    and "create_entry cfg e False backup_dir s = (Inr (True, status), s1)"
  shows "create_entry cfg e False backup_dir s1 = (Inr (True, ''ok''), s1)"
  using assms
  by (auto simp: create_entry_def Let_def split: if_splits
      intro: create_symlink_twice copy_file_twice)

lemma clean_fs_source_exists:
  "exists clean_fs (join (dotfiles_path sample_config) (source gitconfig_entry))"
  by code_simp

lemma create_gitconfig_link:
  "create_entry sample_config gitconfig_entry False None clean_fs
     = (Inr (True, ''created''), linked_fs)"
  by code_simp

theorem create_twice_is_noop_witness:
  "exists clean_fs (join (dotfiles_path sample_config) (source gitconfig_entry))
   \<and> create_entry sample_config gitconfig_entry False None clean_fs
       = (Inr (True, ''created''), linked_fs)
   \<and> create_entry sample_config gitconfig_entry False None linked_fs
       = (Inr (True, ''ok''), linked_fs)"
  using create_twice_is_noop [where cfg = sample_config and e = gitconfig_entry
      and s = clean_fs and backup_dir = None and status = "''created''" and ?s1.0 = linked_fs]
    clean_fs_source_exists create_gitconfig_link
  by (simp add: gitconfig_entry_def)

text \<open>
  C1, as the claim has it, fails for a copy entry whose source is a directory: the first
  run copies the directory, and the second run finds a destination that is not a regular
  file and returns \<^verbatim>\<open>(False, "conflict")\<close>.
\<close>

theorem create_twice_directory_counterexample:
  "create_entry sample_config (nvim_entry ''copy'') False None clean_fs
     = (Inr (True, ''copied''), copied_fs)
   \<and> create_entry sample_config (nvim_entry ''copy'') False None copied_fs
     = (Inr (False, ''conflict''), copied_fs)"
  by code_simp

end
